theory Spec2Isabelle
  imports Main
begin

section \<open>JavaScript strings\<close>

text \<open>
  Strings are lists of characters. Four string operations of the source are used:
  \<^verbatim>\<open>replace(/\D/g, "")\<close>, \<^verbatim>\<open>startsWith\<close>, \<^verbatim>\<open>includes\<close> (here \<open>str_includes\<close>) and \<^verbatim>\<open>toLowerCase\<close>.
  \<^verbatim>\<open>\D\<close> without the unicode flag is every character outside \<^verbatim>\<open>0-9\<close>.
  \<^verbatim>\<open>toLowerCase\<close> is modelled on the ASCII letters; other characters are left as they are.
\<close>

definition is_digit :: "char \<Rightarrow> bool" where
  "is_digit c = (c \<in> set ''0123456789'')"

definition strip_non_digits :: "string \<Rightarrow> string" where
  "strip_non_digits s = filter is_digit s"

definition startsWith :: "string \<Rightarrow> string \<Rightarrow> bool" where
  "startsWith s p = (take (length p) s = p)"

fun str_includes :: "string \<Rightarrow> string \<Rightarrow> bool" where
  "str_includes [] p = (p = [])"
| "str_includes (c # cs) p = (startsWith (c # cs) p \<or> str_includes cs p)"

definition lower_char :: "char \<Rightarrow> char" where
  "lower_char c =
     (case map_of (zip ''ABCDEFGHIJKLMNOPQRSTUVWXYZ'' ''abcdefghijklmnopqrstuvwxyz'') c of
        Some l \<Rightarrow> l
      | None \<Rightarrow> c)"

definition toLowerCase :: "string \<Rightarrow> string" where
  "toLowerCase s = map lower_char s"

text \<open>
  A JavaScript value that is a string or \<^verbatim>\<open>undefined\<close> is a \<^typ>\<open>string option\<close>.
  It is truthy when it is a non-empty string; \<open>truthy\<close> returns the string in that case.
\<close>

definition truthy :: "string option \<Rightarrow> string option" where
  "truthy v = (case v of None \<Rightarrow> None | Some s \<Rightarrow> if s = [] then None else Some s)"

section \<open>Phone normalisation (routes/otp.js, formatPhoneNumber)\<close>

text \<open>
  The three \<^verbatim>\<open>throw new Error(...)\<close> of \<^verbatim>\<open>formatPhoneNumber\<close>, each with the
  values its message interpolates: the original input and, for the last two, the digit count.
\<close>

datatype phone_error =
    TooShort string
  | TooLong string nat
  | BadLength string nat

text \<open>The final validation of the function: 10 to 15 digits after formatting.\<close>

definition final_validation :: "string \<Rightarrow> string \<Rightarrow> phone_error + string" where
  "final_validation phone cleaned =
     (if length cleaned < 10 \<or> length cleaned > 15
      then Inl (BadLength phone (length cleaned))
      else Inr cleaned)"

definition formatPhoneNumber :: "string \<Rightarrow> phone_error + string" where
  "formatPhoneNumber phone =
     (let cleaned = strip_non_digits phone in
      if cleaned = [] \<or> length cleaned < 10 then Inl (TooShort phone)
      else if startsWith cleaned ''0'' \<and> length cleaned = 11
        then final_validation phone (''91'' @ drop 1 cleaned)
      else if length cleaned = 10
        then final_validation phone (''91'' @ cleaned)
      else if startsWith cleaned ''91'' \<and> length cleaned = 12
        then final_validation phone cleaned
      else if length cleaned > 15
        then Inl (TooLong phone (length cleaned))
      else final_validation phone cleaned)"

subsection \<open>The normaliser as the specification words it\<close>

text \<open>
  The specification's contract is \<open>normalize(raw) -> canonicalDigits | InvalidPhone\<close>.
  \<open>spec_transform\<close> follows its case analysis sentence by sentence; \<open>None\<close> is
  the rejection "too long".
\<close>

datatype normalize_result = InvalidPhone | Canonical string

definition spec_transform :: "string \<Rightarrow> string option" where
  "spec_transform d =
     (if length d = 11 \<and> take 1 d = ''0'' then Some (''91'' @ tl d)
      else if length d = 10 then Some (''91'' @ d)
      else if length d = 12 \<and> take 2 d = ''91'' then Some d
      else if length d > 15 then None
      else Some d)"

definition spec_normalize :: "string \<Rightarrow> normalize_result" where
  "spec_normalize raw =
     (let d = filter is_digit raw in
      if length d < 10 then InvalidPhone
      else case spec_transform d of
             None \<Rightarrow> InvalidPhone
           | Some r \<Rightarrow> if 10 \<le> length r \<and> length r \<le> 15 then Canonical r else InvalidPhone)"

text \<open>What a caller of \<open>formatPhoneNumber\<close> sees, in the specification's vocabulary.\<close>

definition as_normalize_result :: "phone_error + string \<Rightarrow> normalize_result" where
  "as_normalize_result r = (case r of Inl e \<Rightarrow> InvalidPhone | Inr c \<Rightarrow> Canonical c)"

section \<open>The database behind app.pg.query\<close>

text \<open>
  Every \<^verbatim>\<open>await app.pg.query(...)\<close> is one statement executed by the database, and it
  either returns or throws. The tables are lists of rows in insertion order. The list
  \<open>faults\<close> scripts the failures of the connection: each query consumes its head, and a
  head \<open>True\<close> makes that query throw without touching a table; an empty list is a
  database that answers every query.

  The migrations that create the tables are not among the source files. The columns are
  those the queries name. Whether \<^verbatim>\<open>users.email\<close> carries a unique constraint is the
  parameter \<open>users_email_unique\<close> of the database (the specification says it does; both
  settings are covered). Of \<^verbatim>\<open>users\<close>, the columns \<^verbatim>\<open>status\<close>, \<^verbatim>\<open>created_at\<close> and
  \<^verbatim>\<open>updated_at\<close> are filled by the schema and only copied into replies; they are left out.
\<close>

datatype db_error = QueryFailed | UniqueViolation

record otp_row =
  otp_id :: nat
  otp_phone :: "string option"
  otp_email :: "string option"
  otp_code :: string
  otp_used :: bool
  otp_expires_at :: int
  otp_created_at :: int

record user_row =
  user_id :: string
  user_email :: string
  user_password_hash :: string
  user_last_login_at :: "int option"

record details_row =
  ud_user_id :: string
  ud_first_name :: "string option"
  ud_last_name :: "string option"
  ud_phone :: "string option"

record role_row =
  role_id :: nat
  role_name :: string

record pg =
  otp_codes :: "otp_row list"
  users :: "user_row list"
  user_details :: "details_row list"
  roles :: "role_row list"
  user_roles :: "(string \<times> nat) list"
  users_email_unique :: bool
  faults :: "bool list"

definition query_fails :: "pg \<Rightarrow> bool" where
  "query_fails db = (case faults db of [] \<Rightarrow> False | f # fs \<Rightarrow> f)"

definition after_query :: "pg \<Rightarrow> pg" where
  "after_query db = db\<lparr>faults := tl (faults db)\<rparr>"

subsection \<open>The queries of routes/otp.js\<close>

text \<open>
  Modelled from the spec: the column defaults of \<^verbatim>\<open>otp_codes\<close>, whose migration is not
  among the source files. The insert names only the identity, the code and the expiry; the
  row gets \<^verbatim>\<open>used = false\<close> ("default false"), \<^verbatim>\<open>created_at\<close> equal to the database clock
  at the insert, and an \<^verbatim>\<open>id\<close> no other row has (here the row's position).
\<close>

definition new_otp_row ::
  "otp_row list \<Rightarrow> string option \<Rightarrow> string option \<Rightarrow> string \<Rightarrow> int \<Rightarrow> int \<Rightarrow> otp_row" where
  "new_otp_row table phone email code expiresAt db_now =
     \<lparr>otp_id = length table, otp_phone = phone, otp_email = email, otp_code = code,
      otp_used = False, otp_expires_at = expiresAt, otp_created_at = db_now\<rparr>"

text \<open>
  \<^verbatim>\<open>INSERT INTO public.otp_codes (phone|email, code, expires_at) VALUES ($1, $2, $3)\<close>:
  one insert serves both channels, with the other identity column left NULL.
\<close>

definition insert_otp ::
  "string option \<Rightarrow> string option \<Rightarrow> string \<Rightarrow> int \<Rightarrow> int \<Rightarrow> pg \<Rightarrow> (db_error + unit) \<times> pg" where
  "insert_otp phone email code expiresAt db_now db =
     (if query_fails db then (Inl QueryFailed, after_query db)
      else (Inr (),
            (after_query db)\<lparr>otp_codes := otp_codes db @
               [new_otp_row (otp_codes db) phone email code expiresAt db_now]\<rparr>))"

text \<open>
  \<^verbatim>\<open>ORDER BY created_at DESC LIMIT 1\<close>: the row with the greatest \<^verbatim>\<open>created_at\<close>. SQL
  leaves the choice among equal timestamps open. Modelled from the spec: "ties broken by
  insertion order", so among equal timestamps the later row wins. The results below take
  the timestamps of one identity to be strictly increasing and do not rest on this choice.
\<close>

fun newest :: "otp_row list \<Rightarrow> otp_row option" where
  "newest [] = None"
| "newest (r # rs) =
     (case newest rs of
        None \<Rightarrow> Some r
      | Some r' \<Rightarrow> if otp_created_at r \<le> otp_created_at r' then Some r' else Some r)"

text \<open>The row the SELECT returns when it does not throw: the specification's \<open>latest(identity)\<close>.\<close>

definition latest :: "(otp_row \<Rightarrow> bool) \<Rightarrow> pg \<Rightarrow> otp_row option" where
  "latest wh db = newest (filter wh (otp_codes db))"

definition select_latest :: "(otp_row \<Rightarrow> bool) \<Rightarrow> pg \<Rightarrow> (db_error + otp_row option) \<times> pg" where
  "select_latest wh db =
     (if query_fails db then (Inl QueryFailed, after_query db)
      else (Inr (latest wh db), after_query db))"

text \<open>\<^verbatim>\<open>WHERE phone = $1\<close> and \<^verbatim>\<open>WHERE email = $1\<close>: a NULL column matches nothing.\<close>

definition by_phone :: "string \<Rightarrow> otp_row \<Rightarrow> bool" where
  "by_phone p r = (otp_phone r = Some p)"

definition by_email :: "string \<Rightarrow> otp_row \<Rightarrow> bool" where
  "by_email e r = (otp_email r = Some e)"

text \<open>\<^verbatim>\<open>UPDATE public.otp_codes SET used = true WHERE id = $1\<close>\<close>

definition set_used :: "nat \<Rightarrow> otp_row \<Rightarrow> otp_row" where
  "set_used i r = (if otp_id r = i then r\<lparr>otp_used := True\<rparr> else r)"

definition update_used :: "nat \<Rightarrow> pg \<Rightarrow> (db_error + unit) \<times> pg" where
  "update_used i db =
     (if query_fails db then (Inl QueryFailed, after_query db)
      else (Inr (),
            (after_query db)\<lparr>otp_codes := map (set_used i) (otp_codes db)\<rparr>))"

section \<open>Channel senders\<close>

text \<open>
  The process environment and the two transports. \<open>fetch\<close> is the HTTP call to the SMS
  provider and \<open>sendMail\<close> the SMTP transport (\<open>True\<close> when it resolves, \<open>False\<close> when it
  throws); both are outside the program and enter as parameters.
\<close>

record sms_payload =
  route :: string
  variables_values :: string
  numbers :: string
  schedule_time :: "string option"

text \<open>
  The response body after \<^verbatim>\<open>JSON.parse\<close>: not JSON at all, the JSON value \<^verbatim>\<open>null\<close>
  (every property access on it throws), or a value whose \<^verbatim>\<open>return\<close> property is truthy
  or not.
\<close>

datatype sms_body = NotJson | JsonNull | Json bool

datatype fetch_result = FetchThrows | FetchResponse nat sms_body

record environment =
  OTP_TTL_MINUTES_var :: "int option"
  FAST2SMS_API_KEY :: "string option"
  FAST2SMS_SCHEDULE_TIME :: "string option"
  SMTP_USER :: "string option"
  GMAIL_USER :: "string option"
  SMTP_PASSWORD :: "string option"
  GMAIL_APP_PASSWORD :: "string option"
  fetch :: "sms_payload \<Rightarrow> fetch_result"
  sendMail :: "string \<Rightarrow> string \<Rightarrow> bool"

text \<open>\<^verbatim>\<open>const OTP_TTL_MINUTES = Number(process.env.OTP_TTL_MINUTES || 5)\<close>, on integers.\<close>

definition OTP_TTL_MINUTES :: "environment \<Rightarrow> int" where
  "OTP_TTL_MINUTES env = (case OTP_TTL_MINUTES_var env of None \<Rightarrow> 5 | Some n \<Rightarrow> n)"

text \<open>\<^verbatim>\<open>a || b\<close> on strings that may be undefined or empty.\<close>

definition or_else :: "string option \<Rightarrow> string option \<Rightarrow> string option" where
  "or_else a b = (case truthy a of Some s \<Rightarrow> Some s | None \<Rightarrow> b)"

text \<open>\<^verbatim>\<open>response.ok\<close> of the fetch standard.\<close>

definition response_ok :: "nat \<Rightarrow> bool" where
  "response_ok status = (200 \<le> status \<and> status \<le> 299)"

text \<open>Every way the two senders throw; the values are what the messages interpolate.\<close>

datatype send_error =
    ApiKeyMissing
  | PhoneValidationFailed phone_error
  | FetchFailed
  | ResponseNotJson nat
  | RequestFailed nat
  | PropertyOfNull
  | ProviderError
  | SmtpConfigMissing
  | SendMailFailed

definition sendOtpSms :: "environment \<Rightarrow> string \<Rightarrow> string \<Rightarrow> send_error + unit" where
  "sendOtpSms env code phone =
     (case truthy (FAST2SMS_API_KEY env) of
        None \<Rightarrow> Inl ApiKeyMissing
      | Some apiKey \<Rightarrow>
         (case formatPhoneNumber phone of
            Inl e \<Rightarrow> Inl (PhoneValidationFailed e)
          | Inr formattedPhone \<Rightarrow>
             (case fetch env \<lparr>route = ''otp'', variables_values = code,
                              numbers = formattedPhone,
                              schedule_time = truthy (FAST2SMS_SCHEDULE_TIME env)\<rparr> of
                FetchThrows \<Rightarrow> Inl FetchFailed
              | FetchResponse status body \<Rightarrow>
                 (case body of
                    NotJson \<Rightarrow> Inl (ResponseNotJson status)
                  | JsonNull \<Rightarrow> Inl PropertyOfNull
                  | Json ret \<Rightarrow>
                      if \<not> response_ok status then Inl (RequestFailed status)
                      else if \<not> ret then Inl ProviderError
                      else Inr ()))))"

text \<open>
  \<^verbatim>\<open>sendOtpEmail\<close> of utils/email.js: it throws when no SMTP user is configured, when
  \<^verbatim>\<open>createTransporter\<close> throws (user or password missing) and when \<^verbatim>\<open>sendMail\<close> throws.
\<close>

definition sendOtpEmail :: "environment \<Rightarrow> string \<Rightarrow> string \<Rightarrow> send_error + unit" where
  "sendOtpEmail env code email =
     (case truthy (or_else (SMTP_USER env) (GMAIL_USER env)) of
        None \<Rightarrow> Inl SmtpConfigMissing
      | Some smtpUser \<Rightarrow>
         (case truthy (or_else (SMTP_PASSWORD env) (GMAIL_APP_PASSWORD env)) of
            None \<Rightarrow> Inl SmtpConfigMissing
          | Some smtpPassword \<Rightarrow>
              if sendMail env email code then Inr () else Inl SendMailFailed))"

section \<open>The OTP routes (routes/otp.js, otpRoutes)\<close>

text \<open>
  A reply is a status code and a body. The four verification failures are named as the
  specification names them; each is the 400 reply with the message of the source.
\<close>

datatype request_error = SendError send_error | StoreError db_error

datatype otp_body =
    Success
  | SuccessExpires int
  | Message string
  | ErrorMessage request_error

datatype reply = Reply nat otp_body

definition OtpNotFound :: reply where
  "OtpNotFound = Reply 400 (Message ''OTP not found'')"

definition OtpAlreadyUsed :: reply where
  "OtpAlreadyUsed = Reply 400 (Message ''OTP already used'')"

definition OtpExpired :: reply where
  "OtpExpired = Reply 400 (Message ''OTP expired'')"

definition OtpMismatch :: reply where
  "OtpMismatch = Reply 400 (Message ''Invalid OTP'')"

definition VerifySuccess :: reply where
  "VerifySuccess = Reply 200 Success"

text \<open>
  POST /request. \<open>code\<close> is what \<^verbatim>\<open>generateOtpCode()\<close> returned, \<open>now\<close> is
  \<^verbatim>\<open>Date.now()\<close> in milliseconds and \<open>db_now\<close> the database clock when the insert runs.
  The \<^verbatim>\<open>catch\<close> replies 500 with the message of whatever was thrown.
\<close>

definition request_handler ::
  "environment \<Rightarrow> string \<Rightarrow> int \<Rightarrow> int \<Rightarrow> pg \<Rightarrow> string \<Rightarrow> reply \<times> pg" where
  "request_handler env code now db_now db phone =
     (let expiresAt = now + OTP_TTL_MINUTES env * 60 * 1000 in
      case sendOtpSms env code phone of
        Inl e \<Rightarrow> (Reply 500 (ErrorMessage (SendError e)), db)
      | Inr sent \<Rightarrow>
         (case insert_otp (Some phone) None code expiresAt db_now db of
            (Inl e, db') \<Rightarrow> (Reply 500 (ErrorMessage (StoreError e)), db')
          | (Inr done, db') \<Rightarrow> (Reply 200 (SuccessExpires expiresAt), db')))"

text \<open>POST /email/request.\<close>

definition email_request_handler ::
  "environment \<Rightarrow> string \<Rightarrow> int \<Rightarrow> int \<Rightarrow> pg \<Rightarrow> string \<Rightarrow> reply \<times> pg" where
  "email_request_handler env code now db_now db email =
     (let expiresAt = now + OTP_TTL_MINUTES env * 60 * 1000 in
      case sendOtpEmail env code email of
        Inl e \<Rightarrow> (Reply 500 (ErrorMessage (SendError e)), db)
      | Inr sent \<Rightarrow>
         (case insert_otp None (Some (toLowerCase email)) code expiresAt db_now db of
            (Inl e, db') \<Rightarrow> (Reply 500 (ErrorMessage (StoreError e)), db')
          | (Inr done, db') \<Rightarrow> (Reply 200 (SuccessExpires expiresAt), db')))"

text \<open>
  The body of the \<^verbatim>\<open>try\<close> that POST /verify and POST /email/verify share word for word,
  from the SELECT on: not found, used, expired, mismatch, then the UPDATE.
\<close>

definition check_and_mark :: "(otp_row \<Rightarrow> bool) \<Rightarrow> string \<Rightarrow> int \<Rightarrow> pg \<Rightarrow> reply \<times> pg" where
  "check_and_mark wh code now db =
     (case select_latest wh db of
        (Inl e, db1) \<Rightarrow> (Reply 500 (Message ''Failed to verify OTP''), db1)
      | (Inr None, db1) \<Rightarrow> (OtpNotFound, db1)
      | (Inr (Some otp), db1) \<Rightarrow>
          if otp_used otp then (OtpAlreadyUsed, db1)
          else if now > otp_expires_at otp then (OtpExpired, db1)
          else if otp_code otp \<noteq> code then (OtpMismatch, db1)
          else (case update_used (otp_id otp) db1 of
                  (Inl e, db2) \<Rightarrow> (Reply 500 (Message ''Failed to verify OTP''), db2)
                | (Inr done, db2) \<Rightarrow> (VerifySuccess, db2)))"

record verify_body =
  vphone :: "string option"
  vemail :: "string option"
  vcode :: string

text \<open>POST /verify: the phone branch when \<^verbatim>\<open>phone\<close> is truthy, else the email branch.\<close>

definition verify_handler :: "pg \<Rightarrow> int \<Rightarrow> verify_body \<Rightarrow> reply \<times> pg" where
  "verify_handler db now body =
     (case truthy (vphone body) of
        Some phone \<Rightarrow> check_and_mark (by_phone phone) (vcode body) now db
      | None \<Rightarrow>
         (case truthy (vemail body) of
            None \<Rightarrow> (Reply 400 (Message ''Either phone or email is required''), db)
          | Some email \<Rightarrow> check_and_mark (by_email (toLowerCase email)) (vcode body) now db))"

text \<open>POST /email/verify: \<^verbatim>\<open>email\<close> is required by the route's schema.\<close>

definition email_verify_handler :: "pg \<Rightarrow> int \<Rightarrow> string \<Rightarrow> string \<Rightarrow> reply \<times> pg" where
  "email_verify_handler db now email code =
     check_and_mark (by_email (toLowerCase email)) code now db"

section \<open>The user service (services/userService.js)\<close>

text \<open>
  \<^verbatim>\<open>SELECT * FROM public.users WHERE email = $1 LIMIT 1\<close> with the lower-cased email.
\<close>

definition findUserByEmail :: "pg \<Rightarrow> string \<Rightarrow> (db_error + user_row option) \<times> pg" where
  "findUserByEmail db email =
     (if query_fails db then (Inl QueryFailed, after_query db)
      else (Inr (find (\<lambda>u. user_email u = toLowerCase email) (users db)), after_query db))"

text \<open>The role names of a user: \<^verbatim>\<open>user_roles\<close> joined with \<^verbatim>\<open>roles\<close>.\<close>

definition getUserRoles :: "pg \<Rightarrow> string \<Rightarrow> (db_error + string list) \<times> pg" where
  "getUserRoles db userId =
     (if query_fails db then (Inl QueryFailed, after_query db)
      else (Inr (concat (map (\<lambda>ur. map role_name (filter (\<lambda>r. role_id r = snd ur) (roles db)))
                          (filter (\<lambda>ur. fst ur = userId) (user_roles db)))),
            after_query db))"

text \<open>
  \<^verbatim>\<open>assignRole\<close>: a SELECT of the role id, a throw when the role does not exist, then
  \<^verbatim>\<open>INSERT ... ON CONFLICT (user_id, role_id) DO NOTHING\<close>.
\<close>

datatype assign_error = RoleNotFound string | AssignQueryFailed db_error

definition assignRole :: "pg \<Rightarrow> string \<Rightarrow> string \<Rightarrow> (assign_error + unit) \<times> pg" where
  "assignRole db userId roleName =
     (if query_fails db then (Inl (AssignQueryFailed QueryFailed), after_query db)
      else
        let db1 = after_query db in
        case filter (\<lambda>r. role_name r = roleName) (roles db1) of
          [] \<Rightarrow> (Inl (RoleNotFound roleName), db1)
        | role # others \<Rightarrow>
            if query_fails db1 then (Inl (AssignQueryFailed QueryFailed), after_query db1)
            else (Inr (),
                  (after_query db1)\<lparr>user_roles :=
                     (if (userId, role_id role) \<in> set (user_roles db1) then user_roles db1
                      else user_roles db1 @ [(userId, role_id role)])\<rparr>))"

text \<open>
  \<^verbatim>\<open>INSERT INTO public.users (id, email, password_hash) ... RETURNING ...\<close>: a plain insert,
  with no ON CONFLICT clause. It throws when the connection fails and when the unique
  constraint on \<^verbatim>\<open>email\<close> (if the schema has it) is violated.
\<close>

definition insert_user :: "string \<Rightarrow> string \<Rightarrow> string \<Rightarrow> pg \<Rightarrow> (db_error + user_row) \<times> pg" where
  "insert_user uid email passwordHash db =
     (if query_fails db then (Inl QueryFailed, after_query db)
      else if users_email_unique db \<and> email \<in> set (map user_email (users db))
        then (Inl UniqueViolation, after_query db)
      else
        let user = \<lparr>user_id = uid, user_email = email, user_password_hash = passwordHash,
                    user_last_login_at = None\<rparr>
        in (Inr user, (after_query db)\<lparr>users := users db @ [user]\<rparr>))"

text \<open>\<^verbatim>\<open>COALESCE(EXCLUDED.col, user_details.col)\<close>\<close>

definition coalesce :: "'a option \<Rightarrow> 'a option \<Rightarrow> 'a option" where
  "coalesce a b = (case a of Some x \<Rightarrow> Some x | None \<Rightarrow> b)"

text \<open>
  \<^verbatim>\<open>INSERT INTO public.user_details ... ON CONFLICT (user_id) DO UPDATE SET ...\<close> of
  \<^verbatim>\<open>createUser\<close>.
\<close>

definition upsert_user_details ::
  "string \<Rightarrow> string option \<Rightarrow> string option \<Rightarrow> string option \<Rightarrow> pg \<Rightarrow> (db_error + unit) \<times> pg" where
  "upsert_user_details uid firstName lastName phone db =
     (if query_fails db then (Inl QueryFailed, after_query db)
      else (Inr (),
            (after_query db)\<lparr>user_details :=
               (if uid \<in> set (map ud_user_id (user_details db))
                then map (\<lambda>d. if ud_user_id d = uid
                               then d\<lparr>ud_first_name := coalesce firstName (ud_first_name d),
                                      ud_last_name := coalesce lastName (ud_last_name d),
                                      ud_phone := coalesce phone (ud_phone d)\<rparr>
                               else d) (user_details db)
                else user_details db @
                       [\<lparr>ud_user_id = uid, ud_first_name = firstName,
                         ud_last_name = lastName, ud_phone = phone\<rparr>])\<rparr>))"

text \<open>
  What \<^verbatim>\<open>createUser\<close> draws from outside: the fresh \<^verbatim>\<open>uuidv4()\<close> that becomes the id,
  the random string hashed when no password is given, and \<^verbatim>\<open>hashPassword\<close> of
  utils/password.js.
\<close>

record user_ctx =
  uuid :: string
  random_secret :: string
  hashPassword :: "string \<Rightarrow> string"

record create_user_args =
  cu_email :: string
  cu_password :: "string option"
  cu_firstName :: "string option"
  cu_lastName :: "string option"
  cu_phone :: "string option"
  cu_role :: "string option"

text \<open>The line \<^verbatim>\<open>console.error\<close> writes when the role assignment throws.\<close>

datatype log_line = RoleAssignmentFailed string string assign_error

text \<open>The default parameter \<^verbatim>\<open>role = "managers"\<close>.\<close>

definition role_of :: "create_user_args \<Rightarrow> string" where
  "role_of args = (case cu_role args of None \<Rightarrow> ''managers'' | Some r \<Rightarrow> r)"

text \<open>The first statement of \<^verbatim>\<open>createUser\<close>: the insert into \<^verbatim>\<open>users\<close>.\<close>

definition create_user_row :: "user_ctx \<Rightarrow> pg \<Rightarrow> create_user_args \<Rightarrow> (db_error + user_row) \<times> pg" where
  "create_user_row ctx db args =
     (let passwordHash =
            (case truthy (cu_password args) of
               Some password \<Rightarrow> hashPassword ctx password
             | None \<Rightarrow> hashPassword ctx (random_secret ctx))
      in insert_user (uuid ctx) (toLowerCase (cu_email args)) passwordHash db)"

text \<open>
  The second statement: the \<^verbatim>\<open>user_details\<close> row, written when a name or phone is given
  or the email is a placeholder. It stands outside every \<^verbatim>\<open>try\<close>.
\<close>

definition create_user_details :: "user_row \<Rightarrow> pg \<Rightarrow> create_user_args \<Rightarrow> (db_error + unit) \<times> pg" where
  "create_user_details user db args =
     (if truthy (cu_firstName args) \<noteq> None \<or> truthy (cu_lastName args) \<noteq> None \<or>
         truthy (cu_phone args) \<noteq> None \<or> str_includes (cu_email args) ''@hissabbook.temp''
      then upsert_user_details (user_id user) (truthy (cu_firstName args))
             (truthy (cu_lastName args)) (truthy (cu_phone args)) db
      else (Inr (), db))"

text \<open>
  \<^verbatim>\<open>createUser\<close>: the two statements above, then \<^verbatim>\<open>assignRole\<close> inside
  \<^verbatim>\<open>try { ... } catch { console.error(...) }\<close>. The result is the user row, or what was
  thrown; the third component is what was logged.
\<close>

definition createUser ::
  "user_ctx \<Rightarrow> pg \<Rightarrow> create_user_args \<Rightarrow> (db_error + user_row) \<times> pg \<times> log_line list" where
  "createUser ctx db args =
     (case create_user_row ctx db args of
        (Inl e, db1) \<Rightarrow> (Inl e, db1, [])
      | (Inr user, db1) \<Rightarrow>
         (case create_user_details user db1 args of
            (Inl e, db2) \<Rightarrow> (Inl e, db2, [])
          | (Inr done, db2) \<Rightarrow>
             (case assignRole db2 (user_id user) (role_of args) of
                (Inl e, db3) \<Rightarrow>
                  (Inr user, db3, [RoleAssignmentFailed (role_of args) (user_id user) e])
              | (Inr assigned, db3) \<Rightarrow> (Inr user, db3, []))))"

section \<open>The route POST /create-user (routes/auth.js)\<close>

text \<open>
  The reply carries the token's claims; an exception that leaves the handler becomes the
  framework's 500 reply.
\<close>

record session =
  s_id :: string
  s_email :: string
  s_roles :: "string list"
  s_role :: string

datatype auth_body = Authenticated session | InternalServerError db_error

datatype auth_reply = AuthReply nat auth_body

text \<open>\<^verbatim>\<open>roles[0] || "managers"\<close>\<close>

definition primaryRole :: "string list \<Rightarrow> string" where
  "primaryRole rs = (case rs of [] \<Rightarrow> ''managers'' | r # others \<Rightarrow> if r = [] then ''managers'' else r)"

text \<open>\<^verbatim>\<open>UPDATE public.users SET last_login_at = now(), updated_at = now() WHERE id = $1\<close>\<close>

definition touch_last_login :: "string \<Rightarrow> int \<Rightarrow> pg \<Rightarrow> (db_error + unit) \<times> pg" where
  "touch_last_login uid db_now db =
     (if query_fails db then (Inl QueryFailed, after_query db)
      else (Inr (),
            (after_query db)\<lparr>users :=
               map (\<lambda>u. if user_id u = uid then u\<lparr>user_last_login_at := Some db_now\<rparr> else u)
                 (users db)\<rparr>))"

definition signed_in :: "nat \<Rightarrow> user_row \<Rightarrow> string list \<Rightarrow> auth_reply" where
  "signed_in status user rs =
     AuthReply status (Authenticated \<lparr>s_id = user_id user, s_email = user_email user,
                                      s_roles = rs, s_role = primaryRole rs\<rparr>)"

text \<open>
  The handler after its first \<^verbatim>\<open>await\<close>: \<open>looked_up\<close> is the outcome of
  \<^verbatim>\<open>findUserByEmail\<close>. An existing user is touched and signed in (200); otherwise
  \<^verbatim>\<open>createUser\<close> runs and the new user is signed in (201). The handler has no
  \<^verbatim>\<open>try\<close>: whatever a query or \<^verbatim>\<open>createUser\<close> throws ends the request with 500.
\<close>

definition create_user_resume ::
  "user_ctx \<Rightarrow> int \<Rightarrow> string \<Rightarrow> db_error + user_row option \<Rightarrow> pg \<Rightarrow>
     auth_reply \<times> pg \<times> log_line list" where
  "create_user_resume ctx db_now email looked_up db =
     (case looked_up of
        Inl e \<Rightarrow> (AuthReply 500 (InternalServerError e), db, [])
      | Inr (Some user) \<Rightarrow>
         (case touch_last_login (user_id user) db_now db of
            (Inl e, db1) \<Rightarrow> (AuthReply 500 (InternalServerError e), db1, [])
          | (Inr done, db1) \<Rightarrow>
             (case getUserRoles db1 (user_id user) of
                (Inl e, db2) \<Rightarrow> (AuthReply 500 (InternalServerError e), db2, [])
              | (Inr rs, db2) \<Rightarrow> (signed_in 200 user rs, db2, [])))
      | Inr None \<Rightarrow>
         (case createUser ctx db
                 \<lparr>cu_email = email, cu_password = None, cu_firstName = None,
                  cu_lastName = None, cu_phone = None, cu_role = Some ''managers''\<rparr> of
            (Inl e, db1, logged) \<Rightarrow> (AuthReply 500 (InternalServerError e), db1, logged)
          | (Inr user, db1, logged) \<Rightarrow>
             (case getUserRoles db1 (user_id user) of
                (Inl e, db2) \<Rightarrow> (AuthReply 500 (InternalServerError e), db2, logged)
              | (Inr rs, db2) \<Rightarrow> (signed_in 201 user rs, db2, logged))))"

definition create_user_handler ::
  "user_ctx \<Rightarrow> int \<Rightarrow> pg \<Rightarrow> string \<Rightarrow> auth_reply \<times> pg \<times> log_line list" where
  "create_user_handler ctx db_now db email =
     (case findUserByEmail db email of
        (looked_up, db1) \<Rightarrow> create_user_resume ctx db_now email looked_up db1)"

subsection \<open>Two requests for the same email\<close>

text \<open>
  Requests run concurrently and yield only at an \<^verbatim>\<open>await\<close>; every query is one
  statement of the database. Two schedules of two POST /create-user requests A and B:
  B starts after A has replied; or both lookups are answered before either request
  continues, and then A runs to its reply before B does.
\<close>

definition two_requests_in_sequence ::
  "user_ctx \<Rightarrow> user_ctx \<Rightarrow> int \<Rightarrow> pg \<Rightarrow> string \<Rightarrow> auth_reply \<times> auth_reply \<times> pg" where
  "two_requests_in_sequence ctxA ctxB db_now db email =
     (case create_user_handler ctxA db_now db email of
        (replyA, dbA, logA) \<Rightarrow>
         (case create_user_handler ctxB db_now dbA email of
            (replyB, dbB, logB) \<Rightarrow> (replyA, replyB, dbB)))"

definition two_requests_interleaved ::
  "user_ctx \<Rightarrow> user_ctx \<Rightarrow> int \<Rightarrow> pg \<Rightarrow> string \<Rightarrow> auth_reply \<times> auth_reply \<times> pg" where
  "two_requests_interleaved ctxA ctxB db_now db email =
     (case findUserByEmail db email of
        (lookedA, db1) \<Rightarrow>
         (case findUserByEmail db1 email of
            (lookedB, db2) \<Rightarrow>
             (case create_user_resume ctxA db_now email lookedA db2 of
                (replyA, db3, logA) \<Rightarrow>
                 (case create_user_resume ctxB db_now email lookedB db3 of
                    (replyB, db4, logB) \<Rightarrow> (replyA, replyB, db4)))))"

text \<open>The id a reply hands to the caller, when it signs a user in.\<close>

definition reply_id :: "auth_reply \<Rightarrow> string option" where
  "reply_id r = (case r of AuthReply status (Authenticated s) \<Rightarrow> Some (s_id s)
                         | AuthReply status (InternalServerError e) \<Rightarrow> None)"

text \<open>The rows of \<^verbatim>\<open>users\<close> stored for an email.\<close>

definition rows_for :: "pg \<Rightarrow> string \<Rightarrow> user_row list" where
  "rows_for db email = filter (\<lambda>u. user_email u = toLowerCase email) (users db)"

section \<open>A concrete environment and database\<close>

text \<open>
  An environment whose transports deliver and one whose transports fail, and a database
  that holds an unused code for the phone 9876543210, a used code for user@example.com
  and the role \<^verbatim>\<open>managers\<close>.
\<close>

definition demo_env :: environment where
  "demo_env =
     \<lparr>OTP_TTL_MINUTES_var = None, FAST2SMS_API_KEY = Some ''key'',
      FAST2SMS_SCHEDULE_TIME = None, SMTP_USER = Some ''mailer'', GMAIL_USER = None,
      SMTP_PASSWORD = Some ''secret'', GMAIL_APP_PASSWORD = None,
      fetch = (\<lambda>payload. FetchResponse 200 (Json True)),
      sendMail = (\<lambda>recipient code. True)\<rparr>"

definition failing_env :: environment where
  "failing_env =
     \<lparr>OTP_TTL_MINUTES_var = None, FAST2SMS_API_KEY = Some ''key'',
      FAST2SMS_SCHEDULE_TIME = None, SMTP_USER = Some ''mailer'', GMAIL_USER = None,
      SMTP_PASSWORD = Some ''secret'', GMAIL_APP_PASSWORD = None,
      fetch = (\<lambda>payload. FetchResponse 503 (Json False)),
      sendMail = (\<lambda>recipient code. False)\<rparr>"

definition demo_phone_row :: otp_row where
  "demo_phone_row =
     \<lparr>otp_id = 0, otp_phone = Some ''9876543210'', otp_email = None, otp_code = ''111111'',
      otp_used = False, otp_expires_at = 301000, otp_created_at = 1000\<rparr>"

definition demo_email_row :: otp_row where
  "demo_email_row =
     \<lparr>otp_id = 1, otp_phone = None, otp_email = Some ''user@example.com'',
      otp_code = ''222222'', otp_used = True, otp_expires_at = 302000,
      otp_created_at = 2000\<rparr>"

definition demo_db :: pg where
  "demo_db =
     \<lparr>otp_codes = [demo_phone_row, demo_email_row],
      users = [], user_details = [],
      roles = [\<lparr>role_id = 1, role_name = ''managers''\<rparr>],
      user_roles = [], users_email_unique = True, faults = []\<rparr>"

definition ctx_A :: user_ctx where
  "ctx_A = \<lparr>uuid = ''id-A'', random_secret = ''secret-A'', hashPassword = (\<lambda>p. ''#'' @ p)\<rparr>"

definition ctx_B :: user_ctx where
  "ctx_B = \<lparr>uuid = ''id-B'', random_secret = ''secret-B'', hashPassword = (\<lambda>p. ''#'' @ p)\<rparr>"

text \<open>
  The arguments of \<^verbatim>\<open>createUser\<close> for a phone account, the row it inserts, a database
  without the role \<^verbatim>\<open>managers\<close>, a schema without the unique constraint on
  \<^verbatim>\<open>users.email\<close>, and a connection that fails on its second query.
\<close>

definition demo_args :: create_user_args where
  "demo_args = \<lparr>cu_email = ''phone_919876543210@hissabbook.temp'', cu_password = None,
     cu_firstName = None, cu_lastName = None, cu_phone = Some ''919876543210'',
     cu_role = Some ''managers''\<rparr>"

definition demo_user :: user_row where
  "demo_user = \<lparr>user_id = ''id-A'', user_email = ''phone_919876543210@hissabbook.temp'',
     user_password_hash = ''#secret-A'', user_last_login_at = None\<rparr>"

definition no_roles_db :: pg where
  "no_roles_db = demo_db\<lparr>roles := []\<rparr>"

definition duplicates_db :: pg where
  "duplicates_db = demo_db\<lparr>users_email_unique := False\<rparr>"

definition flaky_db :: pg where
  "flaky_db = demo_db\<lparr>faults := [False, True]\<rparr>"

section \<open>Notions used to state the results\<close>


text \<open>
  The ids of a table that only \<open>insert_otp\<close> and \<open>update_used\<close> have written: each row's
  id is its position.
\<close>

definition serial_ids :: "otp_row list \<Rightarrow> bool" where
  "serial_ids table = (map otp_id table = [0..<length table])"

section \<open>Phone normalisation: results\<close>

lemma drop_one_is_tl: "drop (Suc 0) xs = tl xs"
  by (cases xs) simp_all

text \<open>
  Claim C6. \<open>formatPhoneNumber\<close> computes the specification's case analysis: strip the
  non-digits; reject fewer than 10 digits; 11 digits with a leading zero have the zero
  replaced by 91; 10 digits get 91 prepended; 12 digits starting with 91 are unchanged;
  more than 15 digits are rejected; the result is accepted when it has 10 to 15 digits and
  rejected otherwise. Every rejection of the code is an InvalidPhone of the specification.
\<close>

theorem formatPhoneNumber_refines_spec:
  "as_normalize_result (formatPhoneNumber raw) = spec_normalize raw"
  by (simp add: as_normalize_result_def formatPhoneNumber_def spec_normalize_def
      spec_transform_def final_validation_def strip_non_digits_def startsWith_def
      drop_one_is_tl Let_def)

section \<open>The OTP store and the verifier: lemmas\<close>

lemma after_query_no_faults: "faults db = [] \<Longrightarrow> after_query db = db"
  by (simp add: after_query_def)

lemma no_faults_query_ok: "faults db = [] \<Longrightarrow> \<not> query_fails db"
  by (simp add: query_fails_def)

lemma newest_snoc:
  "\<forall>r \<in> set rs. otp_created_at r < otp_created_at x \<Longrightarrow> newest (rs @ [x]) = Some x"
  by (induction rs) auto


lemma newest_in_set: "newest rs = Some r \<Longrightarrow> r \<in> set rs"
  by (induction rs arbitrary: r) (auto split: option.splits if_splits)





lemma check_and_mark_cases:
  assumes "faults db = []"
  shows "check_and_mark wh code now db =
     (case latest wh db of
        None \<Rightarrow> (OtpNotFound, db)
      | Some otp \<Rightarrow>
          if otp_used otp then (OtpAlreadyUsed, db)
          else if now > otp_expires_at otp then (OtpExpired, db)
          else if otp_code otp \<noteq> code then (OtpMismatch, db)
          else (VerifySuccess, db\<lparr>otp_codes := map (set_used (otp_id otp)) (otp_codes db)\<rparr>))"
  using assms
  by (simp add: check_and_mark_def select_latest_def update_used_def no_faults_query_ok
      after_query_no_faults split: option.splits)

lemma insert_otp_ok:
  "faults db = [] \<Longrightarrow>
   insert_otp ph em code ex t db =
     (Inr (), db\<lparr>otp_codes := otp_codes db @ [new_otp_row (otp_codes db) ph em code ex t]\<rparr>)"
  by (simp add: insert_otp_def no_faults_query_ok after_query_no_faults)

lemma newest_after_issue:
  assumes fresh: "\<forall>r \<in> set rows. wh r \<longrightarrow> otp_created_at r < t"
    and mine: "wh (new_otp_row rows ph em code ex t)"
  shows "newest (filter wh (rows @ [new_otp_row rows ph em code ex t])) =
           Some (new_otp_row rows ph em code ex t)"
proof -
  have "\<forall>r \<in> set (filter wh rows). otp_created_at r < otp_created_at (new_otp_row rows ph em code ex t)"
    using fresh by (simp add: new_otp_row_def)
  then show ?thesis
    using mine by (simp add: newest_snoc)
qed



section \<open>Issuing and verifying a code\<close>

lemma formatted_phone_nonempty: "formatPhoneNumber phone = Inr c \<Longrightarrow> phone \<noteq> []"
  by (auto simp: formatPhoneNumber_def strip_non_digits_def)

lemma sms_sent_phone_truthy: "sendOtpSms env code phone = Inr u \<Longrightarrow> truthy (Some phone) = Some phone"
  by (auto simp: sendOtpSms_def truthy_def dest: formatted_phone_nonempty split: option.splits sum.splits)

lemma request_handler_sent:
  assumes "faults db = []" and "sendOtpSms env code phone = Inr u"
  shows "request_handler env code now db_now db phone =
     (Reply 200 (SuccessExpires (now + OTP_TTL_MINUTES env * 60 * 1000)),
      db\<lparr>otp_codes := otp_codes db @
            [new_otp_row (otp_codes db) (Some phone) None code
               (now + OTP_TTL_MINUTES env * 60 * 1000) db_now]\<rparr>)"
  using assms by (simp add: request_handler_def insert_otp_ok Let_def)

lemma email_request_handler_sent:
  assumes "faults db = []" and "sendOtpEmail env code email = Inr u"
  shows "email_request_handler env code now db_now db email =
     (Reply 200 (SuccessExpires (now + OTP_TTL_MINUTES env * 60 * 1000)),
      db\<lparr>otp_codes := otp_codes db @
            [new_otp_row (otp_codes db) None (Some (toLowerCase email)) code
               (now + OTP_TTL_MINUTES env * 60 * 1000) db_now]\<rparr>)"
  using assms by (simp add: email_request_handler_def insert_otp_ok Let_def)




lemmas demo_defs = demo_env_def failing_env_def demo_db_def demo_phone_row_def demo_email_row_def
  ctx_A_def ctx_B_def

lemma demo_sms_sent: "sendOtpSms demo_env code ''9876543210'' = Inr ()"
  by (simp add: sendOtpSms_def demo_env_def truthy_def formatPhoneNumber_def strip_non_digits_def
      is_digit_def startsWith_def final_validation_def response_ok_def)

lemma demo_mail_sent: "sendOtpEmail demo_env code email = Inr ()"
  by (simp add: sendOtpEmail_def demo_env_def truthy_def or_else_def)

lemma demo_no_faults: "faults demo_db = []"
  by (simp add: demo_db_def)

lemma demo_ttl: "OTP_TTL_MINUTES demo_env = 5"
  by (simp add: OTP_TTL_MINUTES_def demo_env_def)

lemma demo_lower: "toLowerCase ''User@Example.com'' = ''user@example.com''"
  by (simp add: toLowerCase_def lower_char_def)


section \<open>The order of the verifier's checks\<close>

lemma check_and_mark_reply:
  assumes ok: "\<not> query_fails db"
  shows "latest wh db = None \<Longrightarrow> fst (check_and_mark wh code now db) = OtpNotFound"
    and "latest wh db = Some otp \<Longrightarrow> otp_used otp \<Longrightarrow>
           fst (check_and_mark wh code now db) = OtpAlreadyUsed"
    and "latest wh db = Some otp \<Longrightarrow> \<not> otp_used otp \<Longrightarrow> otp_expires_at otp < now \<Longrightarrow>
           fst (check_and_mark wh code now db) = OtpExpired"
    and "latest wh db = Some otp \<Longrightarrow> \<not> otp_used otp \<Longrightarrow> \<not> otp_expires_at otp < now \<Longrightarrow>
           otp_code otp \<noteq> code \<Longrightarrow> fst (check_and_mark wh code now db) = OtpMismatch"
  using ok by (simp_all add: check_and_mark_def select_latest_def)

text \<open>
  Claim C2. The verifier checks in the order not found, used, expired, mismatch. When the
  SELECT answers: no record is OTP not found; a used record is OTP already used, whether
  or not it has expired or its code matches; an unused expired record is OTP expired,
  whether or not the code matches; only an unused, unexpired record with another code is
  Invalid OTP.
\<close>

theorem verifier_check_order:
  assumes ok: "\<not> query_fails db"
  shows
   "(truthy (vphone body) = Some phone \<longrightarrow>
       (case latest (by_phone phone) db of
          None \<Rightarrow> fst (verify_handler db now body) = OtpNotFound
        | Some otp \<Rightarrow>
           (otp_used otp \<longrightarrow> fst (verify_handler db now body) = OtpAlreadyUsed) \<and>
           (\<not> otp_used otp \<and> otp_expires_at otp < now \<longrightarrow>
              fst (verify_handler db now body) = OtpExpired) \<and>
           (\<not> otp_used otp \<and> \<not> otp_expires_at otp < now \<and> otp_code otp \<noteq> vcode body \<longrightarrow>
              fst (verify_handler db now body) = OtpMismatch))) \<and>
    (case latest (by_email (toLowerCase email)) db of
       None \<Rightarrow> fst (email_verify_handler db now email code) = OtpNotFound
     | Some otp \<Rightarrow>
        (otp_used otp \<longrightarrow> fst (email_verify_handler db now email code) = OtpAlreadyUsed) \<and>
        (\<not> otp_used otp \<and> otp_expires_at otp < now \<longrightarrow>
           fst (email_verify_handler db now email code) = OtpExpired) \<and>
        (\<not> otp_used otp \<and> \<not> otp_expires_at otp < now \<and> otp_code otp \<noteq> code \<longrightarrow>
           fst (email_verify_handler db now email code) = OtpMismatch))"
  using check_and_mark_reply [OF ok]
  by (simp add: verify_handler_def email_verify_handler_def split: option.splits)

lemma demo_query_ok: "\<not> query_fails demo_db"
  by (simp add: query_fails_def demo_db_def)

lemma demo_latest_phone: "latest (by_phone ''9876543210'') demo_db = Some demo_phone_row"
  by (simp add: latest_def demo_db_def by_phone_def demo_phone_row_def demo_email_row_def)

lemma demo_latest_email: "latest (by_email ''user@example.com'') demo_db = Some demo_email_row"
  by (simp add: latest_def demo_db_def by_email_def demo_phone_row_def demo_email_row_def)

theorem verifier_check_order_witness:
  "fst (verify_handler demo_db 400000
          \<lparr>vphone = Some ''9876543210'', vemail = None, vcode = ''000000''\<rparr>) = OtpExpired \<and>
   fst (email_verify_handler demo_db 400000 ''User@Example.com'' ''000000'') = OtpAlreadyUsed"
proof -
  have tr: "truthy (vphone \<lparr>vphone = Some ''9876543210'', vemail = None, vcode = ''000000''\<rparr>) =
      Some ''9876543210''"
    by (simp add: truthy_def)
  have rows: "\<not> otp_used demo_phone_row" "otp_expires_at demo_phone_row < 400000"
    "otp_used demo_email_row"
    by (simp_all add: demo_phone_row_def demo_email_row_def)
  from verifier_check_order [OF demo_query_ok,
      where body = "\<lparr>vphone = Some ''9876543210'', vemail = None, vcode = ''000000''\<rparr>"
        and phone = "''9876543210''" and now = 400000 and email = "''User@Example.com''"
        and code = "''000000''"]
  show ?thesis
    using tr rows by (simp add: demo_latest_phone demo_latest_email demo_lower)
qed


section \<open>A failed send\<close>

lemma latest_no_rows: "filter wh (otp_codes db) = [] \<Longrightarrow> latest wh db = None"
  by (simp add: latest_def)

text \<open>
  Claim C3. When the SMS or the email sender throws, the request handler replies 500 with
  the sender's error and the database is left as it was; if the identity had no record
  before, a verification that follows is answered OTP not found.
\<close>

theorem failed_send_persists_nothing:
  "(sendOtpSms env code phone = Inl e \<longrightarrow>
      request_handler env code now db_now db phone = (Reply 500 (ErrorMessage (SendError e)), db) \<and>
      (\<not> query_fails db \<and> phone \<noteq> [] \<and> filter (by_phone phone) (otp_codes db) = [] \<longrightarrow>
         fst (verify_handler (snd (request_handler env code now db_now db phone)) t
                \<lparr>vphone = Some phone, vemail = em, vcode = c\<rparr>) = OtpNotFound)) \<and>
   (sendOtpEmail env code email = Inl e' \<longrightarrow>
      email_request_handler env code now db_now db email =
        (Reply 500 (ErrorMessage (SendError e')), db) \<and>
      (\<not> query_fails db \<and> filter (by_email (toLowerCase email)) (otp_codes db) = [] \<longrightarrow>
         fst (email_verify_handler (snd (email_request_handler env code now db_now db email)) t
                email c) = OtpNotFound))"
proof (intro conjI impI)
  assume "sendOtpSms env code phone = Inl e"
  then show "request_handler env code now db_now db phone =
      (Reply 500 (ErrorMessage (SendError e)), db)"
    by (simp add: request_handler_def Let_def)
next
  assume s: "sendOtpSms env code phone = Inl e"
    and h: "\<not> query_fails db \<and> phone \<noteq> [] \<and> filter (by_phone phone) (otp_codes db) = []"
  have same: "snd (request_handler env code now db_now db phone) = db"
    using s by (simp add: request_handler_def Let_def)
  have "latest (by_phone phone) db = None"
    using h by (simp add: latest_no_rows)
  then show "fst (verify_handler (snd (request_handler env code now db_now db phone)) t
                \<lparr>vphone = Some phone, vemail = em, vcode = c\<rparr>) = OtpNotFound"
    using h check_and_mark_reply(1) [of db "by_phone phone" c t]
    by (simp add: same verify_handler_def truthy_def)
next
  assume "sendOtpEmail env code email = Inl e'"
  then show "email_request_handler env code now db_now db email =
        (Reply 500 (ErrorMessage (SendError e')), db)"
    by (simp add: email_request_handler_def Let_def)
next
  assume s: "sendOtpEmail env code email = Inl e'"
    and h: "\<not> query_fails db \<and> filter (by_email (toLowerCase email)) (otp_codes db) = []"
  have same: "snd (email_request_handler env code now db_now db email) = db"
    using s by (simp add: email_request_handler_def Let_def)
  have "latest (by_email (toLowerCase email)) db = None"
    using h by (simp add: latest_no_rows)
  then show "fst (email_verify_handler (snd (email_request_handler env code now db_now db email)) t
                email c) = OtpNotFound"
    using h check_and_mark_reply(1) [of db "by_email (toLowerCase email)" c t]
    by (simp add: same email_verify_handler_def)
qed


lemma failing_sms: "sendOtpSms failing_env code ''9123456789'' = Inl (RequestFailed 503)"
  by (simp add: sendOtpSms_def failing_env_def truthy_def formatPhoneNumber_def strip_non_digits_def
      is_digit_def startsWith_def final_validation_def response_ok_def)

lemma failing_mail: "sendOtpEmail failing_env code email = Inl SendMailFailed"
  by (simp add: sendOtpEmail_def failing_env_def truthy_def or_else_def)

theorem failed_send_persists_nothing_witness:
  "request_handler failing_env ''123456'' 400000 400500 demo_db ''9123456789'' =
     (Reply 500 (ErrorMessage (SendError (RequestFailed 503))), demo_db) \<and>
   fst (verify_handler
          (snd (request_handler failing_env ''123456'' 400000 400500 demo_db ''9123456789''))
          400600 \<lparr>vphone = Some ''9123456789'', vemail = None, vcode = ''123456''\<rparr>) = OtpNotFound \<and>
   email_request_handler failing_env ''123456'' 400000 400500 demo_db ''new@example.com'' =
     (Reply 500 (ErrorMessage (SendError SendMailFailed)), demo_db) \<and>
   fst (email_verify_handler
          (snd (email_request_handler failing_env ''123456'' 400000 400500 demo_db ''new@example.com''))
          400600 ''new@example.com'' ''123456'') = OtpNotFound"
proof -
  have none_phone: "filter (by_phone ''9123456789'') (otp_codes demo_db) = []"
    by (simp add: demo_defs by_phone_def)
  have none_email: "filter (by_email (toLowerCase ''new@example.com'')) (otp_codes demo_db) = []"
    by (simp add: demo_defs by_email_def toLowerCase_def lower_char_def)
  have ne: "''9123456789'' \<noteq> []" by simp
  from failed_send_persists_nothing [where env = failing_env and code = "''123456''"
      and phone = "''9123456789''" and e = "RequestFailed 503" and now = 400000
      and db_now = 400500 and db = demo_db and t = 400600 and em = None and c = "''123456''"
      and email = "''new@example.com''" and e' = SendMailFailed]
  show ?thesis
    using failing_sms failing_mail none_phone none_email demo_query_ok ne by blast
qed


section \<open>A superseded code\<close>

lemma superseded_generic:
  assumes nf: "faults db = []"
    and fresh: "\<forall>r \<in> set (otp_codes db). wh r \<longrightarrow> otp_created_at r < ta"
    and order: "ta < tb"
    and mine1: "wh (new_otp_row (otp_codes db) ph em c1 ex1 ta)"
    and mine2: "\<And>table. wh (new_otp_row table ph em c2 ex2 tb)"
  defines "db1 \<equiv> db\<lparr>otp_codes := otp_codes db @ [new_otp_row (otp_codes db) ph em c1 ex1 ta]\<rparr>"
  defines "db2 \<equiv> db1\<lparr>otp_codes := otp_codes db1 @ [new_otp_row (otp_codes db1) ph em c2 ex2 tb]\<rparr>"
  shows "latest wh db2 = Some (new_otp_row (otp_codes db1) ph em c2 ex2 tb)"
    and "c1 \<noteq> c2 \<Longrightarrow>
           check_and_mark wh c1 t db2 = (if ex2 < t then OtpExpired else OtpMismatch, db2)"
    and "t' \<le> ex2 \<Longrightarrow> fst (check_and_mark wh c2 t' db2) = VerifySuccess"
proof -
  let ?row2 = "new_otp_row (otp_codes db1) ph em c2 ex2 tb"
  have nf1: "faults db1 = []" using nf by (simp add: db1_def)
  have nf2: "faults db2 = []" using nf1 by (simp add: db2_def)
  have fresh1: "\<forall>r \<in> set (otp_codes db1). wh r \<longrightarrow> otp_created_at r < tb"
    using fresh order by (auto simp: db1_def new_otp_row_def)
  show l2: "latest wh db2 = Some ?row2"
    using newest_after_issue [OF fresh1 mine2] by (simp add: latest_def db2_def)
  have fields: "\<not> otp_used ?row2" "otp_expires_at ?row2 = ex2" "otp_code ?row2 = c2"
    by (simp_all add: new_otp_row_def)
  show "c1 \<noteq> c2 \<Longrightarrow>
           check_and_mark wh c1 t db2 = (if ex2 < t then OtpExpired else OtpMismatch, db2)"
    using fields by (simp only: check_and_mark_cases [OF nf2] l2) simp
  show "t' \<le> ex2 \<Longrightarrow> fst (check_and_mark wh c2 t' db2) = VerifySuccess"
    using fields by (simp only: check_and_mark_cases [OF nf2] l2) simp
qed

lemma request_handler_sent_db:
  assumes "faults db = []" and "sendOtpSms env code phone = Inr u"
  shows "snd (request_handler env code now db_now db phone) =
      db\<lparr>otp_codes := otp_codes db @
            [new_otp_row (otp_codes db) (Some phone) None code
               (now + OTP_TTL_MINUTES env * 60 * 1000) db_now]\<rparr>"
  using assms by (simp add: request_handler_sent)

lemma email_request_handler_sent_db:
  assumes "faults db = []" and "sendOtpEmail env code email = Inr u"
  shows "snd (email_request_handler env code now db_now db email) =
      db\<lparr>otp_codes := otp_codes db @
            [new_otp_row (otp_codes db) None (Some (toLowerCase email)) code
               (now + OTP_TTL_MINUTES env * 60 * 1000) db_now]\<rparr>"
  using assms by (simp add: email_request_handler_sent)

text \<open>
  Claim C4. After two codes have been issued for one identity, the second later than the
  first, the verifier consults the second record only: the latest record is the one the
  second request stored, presenting the second code within its time succeeds, and
  presenting the first code, a different string, fails (Invalid OTP, or OTP expired once the
  second code's time is over) and changes nothing.
\<close>

theorem only_latest_code_verifies:
  assumes nf: "faults db = []"
    and order: "ta < tb"
    and intime: "t' \<le> now_b + OTP_TTL_MINUTES env * 60 * 1000"
  shows
   "(sendOtpSms env c1 phone = Inr () \<and> sendOtpSms env c2 phone = Inr () \<and>
     (\<forall>r \<in> set (otp_codes db). by_phone phone r \<longrightarrow> otp_created_at r < ta) \<longrightarrow>
       (let db1 = snd (request_handler env c1 now_a ta db phone);
            db2 = snd (request_handler env c2 now_b tb db1 phone)
        in map_option otp_id (latest (by_phone phone) db2) = Some (length (otp_codes db1)) \<and>
           fst (verify_handler db2 t' \<lparr>vphone = Some phone, vemail = e2, vcode = c2\<rparr>) =
             VerifySuccess \<and>
           (c1 \<noteq> c2 \<longrightarrow>
              verify_handler db2 t \<lparr>vphone = Some phone, vemail = e1, vcode = c1\<rparr> =
                (if now_b + OTP_TTL_MINUTES env * 60 * 1000 < t then OtpExpired else OtpMismatch,
                 db2)))) \<and>
    (sendOtpEmail env c1 email = Inr () \<and> sendOtpEmail env c2 email = Inr () \<and>
     (\<forall>r \<in> set (otp_codes db). by_email (toLowerCase email) r \<longrightarrow> otp_created_at r < ta) \<longrightarrow>
       (let db1 = snd (email_request_handler env c1 now_a ta db email);
            db2 = snd (email_request_handler env c2 now_b tb db1 email)
        in map_option otp_id (latest (by_email (toLowerCase email)) db2) =
             Some (length (otp_codes db1)) \<and>
           fst (email_verify_handler db2 t' email c2) = VerifySuccess \<and>
           (c1 \<noteq> c2 \<longrightarrow>
              email_verify_handler db2 t email c1 =
                (if now_b + OTP_TTL_MINUTES env * 60 * 1000 < t then OtpExpired else OtpMismatch,
                 db2))))"
proof (intro conjI impI)
  let ?ex1 = "now_a + OTP_TTL_MINUTES env * 60 * 1000"
  let ?ex2 = "now_b + OTP_TTL_MINUTES env * 60 * 1000"
  assume a: "sendOtpSms env c1 phone = Inr () \<and> sendOtpSms env c2 phone = Inr () \<and>
     (\<forall>r \<in> set (otp_codes db). by_phone phone r \<longrightarrow> otp_created_at r < ta)"
  have tr: "truthy (Some phone) = Some phone"
    using a sms_sent_phone_truthy by blast
  have fresh: "\<forall>r \<in> set (otp_codes db). by_phone phone r \<longrightarrow> otp_created_at r < ta"
    using a by blast
  have mine1: "by_phone phone (new_otp_row (otp_codes db) (Some phone) None c1 ?ex1 ta)"
    by (simp add: by_phone_def new_otp_row_def)
  have mine2: "\<And>table. by_phone phone (new_otp_row table (Some phone) None c2 ?ex2 tb)"
    by (simp add: by_phone_def new_otp_row_def)
  note g = superseded_generic [OF nf fresh order mine1 mine2]
  define db1 where "db1 = snd (request_handler env c1 now_a ta db phone)"
  have d1: "db1 = db\<lparr>otp_codes := otp_codes db @
      [new_otp_row (otp_codes db) (Some phone) None c1 ?ex1 ta]\<rparr>"
    unfolding db1_def using a by (simp add: request_handler_sent_db [OF nf])
  have nf1: "faults db1 = []" using nf by (simp add: d1)
  define db2 where "db2 = snd (request_handler env c2 now_b tb db1 phone)"
  have d2: "db2 = db1\<lparr>otp_codes := otp_codes db1 @
      [new_otp_row (otp_codes db1) (Some phone) None c2 ?ex2 tb]\<rparr>"
    unfolding db2_def using a by (simp add: request_handler_sent_db [OF nf1])
  have "map_option otp_id (latest (by_phone phone) db2) = Some (length (otp_codes db1)) \<and>
        fst (verify_handler db2 t' \<lparr>vphone = Some phone, vemail = e2, vcode = c2\<rparr>) = VerifySuccess \<and>
        (c1 \<noteq> c2 \<longrightarrow>
           verify_handler db2 t \<lparr>vphone = Some phone, vemail = e1, vcode = c1\<rparr> =
             (if ?ex2 < t then OtpExpired else OtpMismatch, db2))"
    using g(1) g(2) [of t] g(3) [OF intime]
    by (simp add: d2 d1 verify_handler_def tr new_otp_row_def)
  then show "let db1 = snd (request_handler env c1 now_a ta db phone);
            db2 = snd (request_handler env c2 now_b tb db1 phone)
        in map_option otp_id (latest (by_phone phone) db2) = Some (length (otp_codes db1)) \<and>
           fst (verify_handler db2 t' \<lparr>vphone = Some phone, vemail = e2, vcode = c2\<rparr>) =
             VerifySuccess \<and>
           (c1 \<noteq> c2 \<longrightarrow>
              verify_handler db2 t \<lparr>vphone = Some phone, vemail = e1, vcode = c1\<rparr> =
                (if ?ex2 < t then OtpExpired else OtpMismatch, db2))"
    by (simp add: Let_def db1_def db2_def)
next
  let ?ex1 = "now_a + OTP_TTL_MINUTES env * 60 * 1000"
  let ?ex2 = "now_b + OTP_TTL_MINUTES env * 60 * 1000"
  let ?le = "toLowerCase email"
  assume a: "sendOtpEmail env c1 email = Inr () \<and> sendOtpEmail env c2 email = Inr () \<and>
     (\<forall>r \<in> set (otp_codes db). by_email (toLowerCase email) r \<longrightarrow> otp_created_at r < ta)"
  have fresh: "\<forall>r \<in> set (otp_codes db). by_email ?le r \<longrightarrow> otp_created_at r < ta"
    using a by blast
  have mine1: "by_email ?le (new_otp_row (otp_codes db) None (Some ?le) c1 ?ex1 ta)"
    by (simp add: by_email_def new_otp_row_def)
  have mine2: "\<And>table. by_email ?le (new_otp_row table None (Some ?le) c2 ?ex2 tb)"
    by (simp add: by_email_def new_otp_row_def)
  note g = superseded_generic [OF nf fresh order mine1 mine2]
  define db1 where "db1 = snd (email_request_handler env c1 now_a ta db email)"
  have d1: "db1 = db\<lparr>otp_codes := otp_codes db @
      [new_otp_row (otp_codes db) None (Some ?le) c1 ?ex1 ta]\<rparr>"
    unfolding db1_def using a by (simp add: email_request_handler_sent_db [OF nf])
  have nf1: "faults db1 = []" using nf by (simp add: d1)
  define db2 where "db2 = snd (email_request_handler env c2 now_b tb db1 email)"
  have d2: "db2 = db1\<lparr>otp_codes := otp_codes db1 @
      [new_otp_row (otp_codes db1) None (Some ?le) c2 ?ex2 tb]\<rparr>"
    unfolding db2_def using a by (simp add: email_request_handler_sent_db [OF nf1])
  have "map_option otp_id (latest (by_email ?le) db2) = Some (length (otp_codes db1)) \<and>
        fst (email_verify_handler db2 t' email c2) = VerifySuccess \<and>
        (c1 \<noteq> c2 \<longrightarrow>
           email_verify_handler db2 t email c1 =
             (if ?ex2 < t then OtpExpired else OtpMismatch, db2))"
    using g(1) g(2) [of t] g(3) [OF intime]
    by (simp add: d2 d1 email_verify_handler_def new_otp_row_def)
  then show "let db1 = snd (email_request_handler env c1 now_a ta db email);
            db2 = snd (email_request_handler env c2 now_b tb db1 email)
        in map_option otp_id (latest (by_email (toLowerCase email)) db2) =
             Some (length (otp_codes db1)) \<and>
           fst (email_verify_handler db2 t' email c2) = VerifySuccess \<and>
           (c1 \<noteq> c2 \<longrightarrow>
              email_verify_handler db2 t email c1 =
                (if ?ex2 < t then OtpExpired else OtpMismatch, db2))"
    by (simp add: Let_def db1_def db2_def)
qed

theorem only_latest_code_verifies_witness:
  "(let db1 = snd (request_handler demo_env ''123456'' 400000 400500 demo_db ''9876543210'');
        db2 = snd (request_handler demo_env ''654321'' 460000 460500 db1 ''9876543210'')
    in map_option otp_id (latest (by_phone ''9876543210'') db2) = Some (length (otp_codes db1)) \<and>
       fst (verify_handler db2 480000
              \<lparr>vphone = Some ''9876543210'', vemail = None, vcode = ''654321''\<rparr>) = VerifySuccess \<and>
       verify_handler db2 470000
              \<lparr>vphone = Some ''9876543210'', vemail = None, vcode = ''123456''\<rparr> =
         (if 460000 + OTP_TTL_MINUTES demo_env * 60 * 1000 < 470000 then OtpExpired else OtpMismatch,
          db2)) \<and>
   (let db1 = snd (email_request_handler demo_env ''123456'' 400000 400500 demo_db ''User@Example.com'');
        db2 = snd (email_request_handler demo_env ''654321'' 460000 460500 db1 ''User@Example.com'')
    in map_option otp_id (latest (by_email (toLowerCase ''User@Example.com'')) db2) =
         Some (length (otp_codes db1)) \<and>
       fst (email_verify_handler db2 480000 ''User@Example.com'' ''654321'') = VerifySuccess \<and>
       email_verify_handler db2 470000 ''User@Example.com'' ''123456'' =
         (if 460000 + OTP_TTL_MINUTES demo_env * 60 * 1000 < 470000 then OtpExpired else OtpMismatch,
          db2))"
proof -
  have order: "(400500::int) < 460500" by simp
  have differ: "''123456'' \<noteq> ''654321''" by simp
  have intime: "(480000::int) \<le> 460000 + OTP_TTL_MINUTES demo_env * 60 * 1000"
    by (simp add: demo_ttl)
  have fresh_phone: "\<forall>r \<in> set (otp_codes demo_db). by_phone ''9876543210'' r \<longrightarrow> otp_created_at r < 400500"
    by (simp add: demo_defs by_phone_def)
  have fresh_email: "\<forall>r \<in> set (otp_codes demo_db). by_email (toLowerCase ''User@Example.com'') r \<longrightarrow> otp_created_at r < 400500"
    by (simp add: demo_defs by_email_def)
  from only_latest_code_verifies [OF demo_no_faults order intime,
      where ?c1.0 = "''123456''" and ?c2.0 = "''654321''" and phone = "''9876543210''"
        and email = "''User@Example.com''" and now_a = 400000 and t = 470000
        and ?e1.0 = None and ?e2.0 = None]
  show ?thesis
    using demo_sms_sent demo_mail_sent fresh_phone fresh_email differ
    by (simp add: Let_def)
qed

section \<open>What a verification writes\<close>

lemma latest_in_table: "latest wh db = Some otp \<Longrightarrow> otp \<in> set (otp_codes db)"
  by (auto simp: latest_def dest: newest_in_set)

lemma serial_ids_empty: "serial_ids []"
  by (simp add: serial_ids_def)

lemma insert_otp_serial_ids:
  "serial_ids (otp_codes db) \<Longrightarrow>
   serial_ids (otp_codes (snd (insert_otp phone email code expiresAt db_now db)))"
  by (simp add: insert_otp_def serial_ids_def after_query_def new_otp_row_def)

lemma update_used_serial_ids:
  "serial_ids (otp_codes db) \<Longrightarrow> serial_ids (otp_codes (snd (update_used i db)))"
proof -
  have "map otp_id (map (set_used i) (otp_codes db)) = map otp_id (otp_codes db)"
    by (simp add: set_used_def comp_def if_distrib cong: if_cong)
  then show "serial_ids (otp_codes db) \<Longrightarrow> serial_ids (otp_codes (snd (update_used i db)))"
    by (simp add: update_used_def serial_ids_def after_query_def)
qed

lemma serial_ids_nth: "serial_ids table \<Longrightarrow> j < length table \<Longrightarrow> otp_id (table ! j) = j"
proof -
  assume s: "serial_ids table" and j: "j < length table"
  have "otp_id (table ! j) = map otp_id table ! j" using j by simp
  also have "\<dots> = [0..<length table] ! j" using s by (simp add: serial_ids_def)
  also have "\<dots> = j" using j by simp
  finally show ?thesis .
qed

lemma serial_ids_member:
  assumes s: "serial_ids table" and m: "r \<in> set table"
  shows "otp_id r < length table \<and> table ! otp_id r = r"
proof -
  from m obtain j where j: "j < length table" "table ! j = r"
    by (auto simp: in_set_conv_nth)
  then have "otp_id r = j" using serial_ids_nth [OF s] by auto
  then show ?thesis using j by simp
qed

lemma serial_ids_set_used:
  assumes s: "serial_ids table" and m: "r \<in> set table"
  shows "map (set_used (otp_id r)) table = table[otp_id r := r\<lparr>otp_used := True\<rparr>]"
proof (rule nth_equalityI)
  show "length (map (set_used (otp_id r)) table) = length (table[otp_id r := r\<lparr>otp_used := True\<rparr>])"
    by simp
next
  fix j assume "j < length (map (set_used (otp_id r)) table)"
  then have j: "j < length table" by simp
  have idj: "otp_id (table ! j) = j" using serial_ids_nth [OF s j] .
  have at: "table ! otp_id r = r" using serial_ids_member [OF s m] by simp
  show "map (set_used (otp_id r)) table ! j = table[otp_id r := r\<lparr>otp_used := True\<rparr>] ! j"
  proof (cases "j = otp_id r")
    case True
    then show ?thesis using j idj at by (simp add: set_used_def)
  next
    case False
    then show ?thesis using j idj by (simp add: set_used_def)
  qed
qed

lemma check_and_mark_store:
  "fst (check_and_mark wh code now db) \<noteq> VerifySuccess \<Longrightarrow>
     otp_codes (snd (check_and_mark wh code now db)) = otp_codes db"
  "fst (check_and_mark wh code now db) = VerifySuccess \<Longrightarrow>
     \<exists>otp. latest wh db = Some otp \<and> \<not> otp_used otp \<and>
           otp_codes (snd (check_and_mark wh code now db)) =
             map (set_used (otp_id otp)) (otp_codes db)"
  by (auto simp: check_and_mark_def select_latest_def update_used_def after_query_def
      OtpNotFound_def OtpAlreadyUsed_def OtpExpired_def OtpMismatch_def VerifySuccess_def
      split: option.splits if_splits)

lemma check_and_mark_flips_one:
  assumes s: "serial_ids (otp_codes db)"
    and ok: "fst (check_and_mark wh code now db) = VerifySuccess"
  shows "\<exists>i < length (otp_codes db). \<not> otp_used (otp_codes db ! i) \<and>
           otp_codes (snd (check_and_mark wh code now db)) =
             (otp_codes db)[i := (otp_codes db ! i)\<lparr>otp_used := True\<rparr>]"
proof -
  from check_and_mark_store(2) [OF ok] obtain otp where
    l: "latest wh db = Some otp" and nu: "\<not> otp_used otp"
    and st: "otp_codes (snd (check_and_mark wh code now db)) = map (set_used (otp_id otp)) (otp_codes db)"
    by blast
  have m: "otp \<in> set (otp_codes db)" using l by (rule latest_in_table)
  have at: "otp_id otp < length (otp_codes db) \<and> otp_codes db ! otp_id otp = otp"
    using serial_ids_member [OF s m] .
  show ?thesis
    using at nu st serial_ids_set_used [OF s m] by (intro exI [of _ "otp_id otp"]) simp
qed

text \<open>
  Claim C8. A verification that is not answered with success leaves the table of codes as
  it was. A successful one changes exactly one row of a table with serial ids, and only
  its \<^verbatim>\<open>used\<close> column, from false to true.
\<close>

theorem failed_verify_leaves_store:
  "(let r = verify_handler db now body in
      (fst r \<noteq> VerifySuccess \<longrightarrow> otp_codes (snd r) = otp_codes db) \<and>
      (fst r = VerifySuccess \<and> serial_ids (otp_codes db) \<longrightarrow>
         (\<exists>i < length (otp_codes db). \<not> otp_used (otp_codes db ! i) \<and>
            otp_codes (snd r) = (otp_codes db)[i := (otp_codes db ! i)\<lparr>otp_used := True\<rparr>]))) \<and>
   (let r = email_verify_handler db now email code in
      (fst r \<noteq> VerifySuccess \<longrightarrow> otp_codes (snd r) = otp_codes db) \<and>
      (fst r = VerifySuccess \<and> serial_ids (otp_codes db) \<longrightarrow>
         (\<exists>i < length (otp_codes db). \<not> otp_used (otp_codes db ! i) \<and>
            otp_codes (snd r) = (otp_codes db)[i := (otp_codes db ! i)\<lparr>otp_used := True\<rparr>])))"
proof -
  have generic: "\<And>wh c.
      (fst (check_and_mark wh c now db) \<noteq> VerifySuccess \<longrightarrow>
         otp_codes (snd (check_and_mark wh c now db)) = otp_codes db) \<and>
      (fst (check_and_mark wh c now db) = VerifySuccess \<and> serial_ids (otp_codes db) \<longrightarrow>
         (\<exists>i < length (otp_codes db). \<not> otp_used (otp_codes db ! i) \<and>
            otp_codes (snd (check_and_mark wh c now db)) =
              (otp_codes db)[i := (otp_codes db ! i)\<lparr>otp_used := True\<rparr>]))"
    using check_and_mark_store(1) check_and_mark_flips_one by blast
  have required: "Reply 400 (Message ''Either phone or email is required'') \<noteq> VerifySuccess"
    by (simp add: VerifySuccess_def)
  show ?thesis
    unfolding Let_def verify_handler_def email_verify_handler_def
    using generic required by (simp split: option.splits)
qed


lemma demo_serial: "serial_ids (otp_codes demo_db)"
  by (simp add: serial_ids_def demo_defs upt_conv_Cons)

lemma demo_verify_phone_ok:
  "fst (verify_handler demo_db 300000
          \<lparr>vphone = Some ''9876543210'', vemail = em, vcode = ''111111''\<rparr>) = VerifySuccess"
  by (simp add: verify_handler_def truthy_def check_and_mark_cases [OF demo_no_faults]
      demo_latest_phone demo_phone_row_def)

lemma demo_verify_email_used:
  "fst (email_verify_handler demo_db 300000 ''User@Example.com'' ''222222'') = OtpAlreadyUsed"
  by (simp add: email_verify_handler_def check_and_mark_cases [OF demo_no_faults] demo_lower
      demo_latest_email demo_email_row_def)

lemma failure_replies_differ:
  "OtpNotFound \<noteq> VerifySuccess" "OtpAlreadyUsed \<noteq> VerifySuccess"
  "OtpExpired \<noteq> VerifySuccess" "OtpMismatch \<noteq> VerifySuccess"
  by (simp_all add: OtpNotFound_def OtpAlreadyUsed_def OtpExpired_def OtpMismatch_def VerifySuccess_def)

theorem failed_verify_leaves_store_witness:
  "otp_codes (snd (email_verify_handler demo_db 300000 ''User@Example.com'' ''222222'')) =
     otp_codes demo_db \<and>
   (\<exists>i < length (otp_codes demo_db). \<not> otp_used (otp_codes demo_db ! i) \<and>
      otp_codes (snd (verify_handler demo_db 300000
                        \<lparr>vphone = Some ''9876543210'', vemail = None, vcode = ''111111''\<rparr>)) =
        (otp_codes demo_db)[i := (otp_codes demo_db ! i)\<lparr>otp_used := True\<rparr>])"
proof -
  have failed: "fst (email_verify_handler demo_db 300000 ''User@Example.com'' ''222222'') \<noteq> VerifySuccess"
    by (simp add: demo_verify_email_used failure_replies_differ)
  from failed_verify_leaves_store [where db = demo_db and now = 300000
      and body = "\<lparr>vphone = Some ''9876543210'', vemail = None, vcode = ''111111''\<rparr>"
      and email = "''User@Example.com''" and code = "''222222''"]
  show ?thesis
    using failed demo_verify_phone_ok [of None] demo_serial by (simp add: Let_def)
qed


section \<open>Phone before email\<close>



section \<open>The identity a phone request stores\<close>

text \<open>
  Claim C5, as amended. A phone OTP request whose send succeeds stores, as identity, the
  phone string exactly as the request gave it; the normalised digit string is only the
  destination handed to the SMS provider; and POST /verify looks up the phone string
  exactly as its request gives it.
\<close>

theorem stored_identity_is_raw_phone:
  assumes nf: "faults db = []" and sent: "sendOtpSms env code phone = Inr ()"
  shows "map otp_phone (otp_codes (snd (request_handler env code now db_now db phone))) =
           map otp_phone (otp_codes db) @ [Some phone] \<and>
         (\<exists>formatted status.
            formatPhoneNumber phone = Inr formatted \<and>
            fetch env \<lparr>route = ''otp'', variables_values = code, numbers = formatted,
                       schedule_time = truthy (FAST2SMS_SCHEDULE_TIME env)\<rparr> =
              FetchResponse status (Json True)) \<and>
         verify_handler db' t \<lparr>vphone = Some phone, vemail = em, vcode = c\<rparr> =
           check_and_mark (\<lambda>r. otp_phone r = Some phone) c t db'"
proof (intro conjI)
  show "map otp_phone (otp_codes (snd (request_handler env code now db_now db phone))) =
           map otp_phone (otp_codes db) @ [Some phone]"
    by (simp add: request_handler_sent [OF nf sent] new_otp_row_def)
  show "\<exists>formatted status.
            formatPhoneNumber phone = Inr formatted \<and>
            fetch env \<lparr>route = ''otp'', variables_values = code, numbers = formatted,
                       schedule_time = truthy (FAST2SMS_SCHEDULE_TIME env)\<rparr> =
              FetchResponse status (Json True)"
    using sent
    by (auto simp: sendOtpSms_def split: option.splits sum.splits fetch_result.splits
        sms_body.splits if_splits)
  have "by_phone phone = (\<lambda>r. otp_phone r = Some phone)"
    by (simp add: by_phone_def fun_eq_iff)
  then show "verify_handler db' t \<lparr>vphone = Some phone, vemail = em, vcode = c\<rparr> =
           check_and_mark (\<lambda>r. otp_phone r = Some phone) c t db'"
    using sms_sent_phone_truthy [OF sent] by (simp add: verify_handler_def)
qed

theorem stored_identity_is_raw_phone_witness:
  "map otp_phone (otp_codes (snd (request_handler demo_env ''123456'' 400000 400500 demo_db ''9876543210''))) =
     map otp_phone (otp_codes demo_db) @ [Some ''9876543210''] \<and>
   (\<exists>formatted status.
      formatPhoneNumber ''9876543210'' = Inr formatted \<and>
      fetch demo_env \<lparr>route = ''otp'', variables_values = ''123456'', numbers = formatted,
                      schedule_time = truthy (FAST2SMS_SCHEDULE_TIME demo_env)\<rparr> =
        FetchResponse status (Json True)) \<and>
   verify_handler demo_db 400600 \<lparr>vphone = Some ''9876543210'', vemail = None, vcode = ''123456''\<rparr> =
     check_and_mark (\<lambda>r. otp_phone r = Some ''9876543210'') ''123456'' 400600 demo_db"
  by (rule stored_identity_is_raw_phone [OF demo_no_faults demo_sms_sent])

text \<open>
  The request for 9876543210 stores 9876543210, not the normalised 919876543210, and a
  verification that presents the normalised string finds nothing.
\<close>

theorem normalised_identity_not_stored:
  "formatPhoneNumber ''9876543210'' = Inr ''919876543210'' \<and>
   map otp_phone (otp_codes (snd (request_handler demo_env ''123456'' 400000 400500 demo_db
                                    ''9876543210''))) =
     [Some ''9876543210'', None, Some ''9876543210''] \<and>
   fst (verify_handler (snd (request_handler demo_env ''123456'' 400000 400500 demo_db ''9876543210''))
          400600 \<lparr>vphone = Some ''919876543210'', vemail = None, vcode = ''123456''\<rparr>) = OtpNotFound"
proof (intro conjI)
  show "formatPhoneNumber ''9876543210'' = Inr ''919876543210''"
    by (simp add: formatPhoneNumber_def strip_non_digits_def is_digit_def startsWith_def
        final_validation_def)
  show "map otp_phone (otp_codes (snd (request_handler demo_env ''123456'' 400000 400500 demo_db
                                    ''9876543210''))) =
     [Some ''9876543210'', None, Some ''9876543210'']"
    unfolding request_handler_sent [OF demo_no_faults demo_sms_sent]
    by (simp add: new_otp_row_def demo_defs)
  have ok: "\<not> query_fails (snd (request_handler demo_env ''123456'' 400000 400500 demo_db ''9876543210''))"
    unfolding request_handler_sent [OF demo_no_faults demo_sms_sent]
    by (simp add: query_fails_def demo_db_def)
  have none: "latest (by_phone ''919876543210'')
      (snd (request_handler demo_env ''123456'' 400000 400500 demo_db ''9876543210'')) = None"
    unfolding request_handler_sent [OF demo_no_faults demo_sms_sent]
    by (simp add: latest_def by_phone_def new_otp_row_def demo_defs)
  show "fst (verify_handler (snd (request_handler demo_env ''123456'' 400000 400500 demo_db ''9876543210''))
          400600 \<lparr>vphone = Some ''919876543210'', vemail = None, vcode = ''123456''\<rparr>) = OtpNotFound"
    using check_and_mark_reply(1) [OF ok none] by (simp add: verify_handler_def truthy_def)
qed

section \<open>createUser and its secondary writes\<close>

lemma assignRole_frame:
  "assignRole db uid rn = (res, db') \<Longrightarrow>
     users db' = users db \<and> users_email_unique db' = users_email_unique db \<and>
     otp_codes db' = otp_codes db \<and> (faults db = [] \<longrightarrow> faults db' = [])"
  by (auto simp: assignRole_def after_query_def Let_def split: if_splits list.splits)

lemma create_user_details_frame:
  "create_user_details user db args = (res, db') \<Longrightarrow>
     users db' = users db \<and> users_email_unique db' = users_email_unique db \<and>
     (faults db = [] \<longrightarrow> faults db' = [] \<and> res = Inr ())"
  by (auto simp: create_user_details_def upsert_user_details_def after_query_def query_fails_def
      split: if_splits)

lemma create_user_row_frame:
  "create_user_row ctx db args = (Inr user, db') \<Longrightarrow>
     users db' = users db @ [user] \<and> user_id user = uuid ctx \<and>
     user_email user = toLowerCase (cu_email args) \<and>
     users_email_unique db' = users_email_unique db \<and> (faults db = [] \<longrightarrow> faults db' = [])"
  by (auto simp: create_user_row_def insert_user_def after_query_def Let_def split: if_splits)

text \<open>
  Claim C9, as amended. When the default-role assignment fails, \<^verbatim>\<open>createUser\<close> still
  returns the user row it has inserted, and the failure is logged. A failure of the
  \<^verbatim>\<open>user_details\<close> insert is not swallowed: \<^verbatim>\<open>createUser\<close> throws it, after the user
  row has been inserted.
\<close>

theorem role_failure_is_swallowed:
  "(create_user_row ctx db args = (Inr user, db1) \<and>
    create_user_details user db1 args = (Inr (), db2) \<and>
    assignRole db2 (user_id user) (role_of args) = (Inl e, db3) \<longrightarrow>
      createUser ctx db args =
        (Inr user, db3, [RoleAssignmentFailed (role_of args) (user_id user) e]) \<and>
      user \<in> set (users db3)) \<and>
   (create_user_row ctx db args = (Inr user, db1) \<and>
    create_user_details user db1 args = (Inl e', db2) \<longrightarrow>
      createUser ctx db args = (Inl e', db2, []) \<and> user \<in> set (users db2))"
proof (intro conjI impI)
  assume a: "create_user_row ctx db args = (Inr user, db1) \<and>
    create_user_details user db1 args = (Inr (), db2) \<and>
    assignRole db2 (user_id user) (role_of args) = (Inl e, db3)"
  then show "createUser ctx db args =
        (Inr user, db3, [RoleAssignmentFailed (role_of args) (user_id user) e])"
    by (simp add: createUser_def)
  have "users db1 = users db @ [user]" using a create_user_row_frame by blast
  moreover have "users db2 = users db1" using a create_user_details_frame by blast
  moreover have "users db3 = users db2" using a assignRole_frame by blast
  ultimately show "user \<in> set (users db3)" by simp
next
  assume a: "create_user_row ctx db args = (Inr user, db1) \<and>
    create_user_details user db1 args = (Inl e', db2)"
  then show "createUser ctx db args = (Inl e', db2, [])"
    by (simp add: createUser_def)
  have "users db1 = users db @ [user]" using a create_user_row_frame by blast
  moreover have "users db2 = users db1" using a create_user_details_frame by blast
  ultimately show "user \<in> set (users db2)" by simp
qed

lemmas user_eval = create_user_row_def create_user_details_def insert_user_def
  upsert_user_details_def assignRole_def role_of_def truthy_def toLowerCase_def lower_char_def
  query_fails_def after_query_def startsWith_def Let_def

lemma demo_row_step:
  "create_user_row ctx_A (demo_db\<lparr>faults := fs\<rparr>) demo_args =
     (if fs \<noteq> [] \<and> hd fs then (Inl QueryFailed, demo_db\<lparr>faults := tl fs\<rparr>)
      else (Inr demo_user, demo_db\<lparr>users := [demo_user], faults := tl fs\<rparr>))"
  by (cases fs) (simp_all add: user_eval demo_args_def demo_user_def demo_db_def ctx_A_def)

text \<open>
  The connection fails on the \<^verbatim>\<open>user_details\<close> insert: \<^verbatim>\<open>createUser\<close> throws, and the
  user row stays in the table.
\<close>

theorem profile_failure_is_not_swallowed:
  "fst (createUser ctx_A (demo_db\<lparr>faults := [False, True]\<rparr>) demo_args) = Inl QueryFailed \<and>
   users (fst (snd (createUser ctx_A (demo_db\<lparr>faults := [False, True]\<rparr>) demo_args))) = [demo_user]"
  by (simp add: createUser_def demo_row_step)
    (simp add: user_eval demo_args_def demo_user_def demo_db_def)

lemmas demo_user_eval = user_eval demo_args_def demo_user_def demo_db_def ctx_A_def
  no_roles_db_def flaky_db_def

theorem role_failure_is_swallowed_witness:
  "fst (createUser ctx_A no_roles_db demo_args) = Inr demo_user \<and>
   snd (snd (createUser ctx_A no_roles_db demo_args)) =
     [RoleAssignmentFailed ''managers'' ''id-A'' (RoleNotFound ''managers'')] \<and>
   demo_user \<in> set (users (fst (snd (createUser ctx_A no_roles_db demo_args)))) \<and>
   fst (createUser ctx_A flaky_db demo_args) = Inl QueryFailed \<and>
   demo_user \<in> set (users (fst (snd (createUser ctx_A flaky_db demo_args))))"
proof -
  let ?db1 = "snd (create_user_row ctx_A no_roles_db demo_args)"
  let ?db2 = "snd (create_user_details demo_user ?db1 demo_args)"
  let ?db3 = "snd (assignRole ?db2 (user_id demo_user) (role_of demo_args))"
  have row: "create_user_row ctx_A no_roles_db demo_args = (Inr demo_user, ?db1)"
    by (simp add: demo_user_eval)
  have details: "create_user_details demo_user ?db1 demo_args = (Inr (), ?db2)"
    by (simp add: demo_user_eval)
  have role: "assignRole ?db2 (user_id demo_user) (role_of demo_args) =
      (Inl (RoleNotFound ''managers''), ?db3)"
    by (simp add: demo_user_eval)
  let ?fb1 = "snd (create_user_row ctx_A flaky_db demo_args)"
  let ?fb2 = "snd (create_user_details demo_user ?fb1 demo_args)"
  have frow: "create_user_row ctx_A flaky_db demo_args = (Inr demo_user, ?fb1)"
    by (simp add: demo_user_eval)
  have fdetails: "create_user_details demo_user ?fb1 demo_args = (Inl QueryFailed, ?fb2)"
    by (simp add: demo_user_eval)
  have names: "role_of demo_args = ''managers''" "user_id demo_user = ''id-A''"
    by (simp_all add: role_of_def demo_args_def demo_user_def)
  from role_failure_is_swallowed [where ctx = ctx_A and db = no_roles_db and args = demo_args
      and user = demo_user and ?db1.0 = ?db1 and ?db2.0 = ?db2 and ?db3.0 = ?db3
      and e = "RoleNotFound ''managers''"]
    role_failure_is_swallowed [where ctx = ctx_A and db = flaky_db and args = demo_args
      and user = demo_user and ?db1.0 = ?fb1 and ?db2.0 = ?fb2 and e' = QueryFailed]
  show ?thesis
    using row details role frow fdetails names by simp
qed

section \<open>Two POST /create-user requests\<close>

lemma findUserByEmail_ok:
  "faults db = [] \<Longrightarrow>
   findUserByEmail db email = (Inr (find (\<lambda>u. user_email u = toLowerCase email) (users db)), db)"
  by (simp add: findUserByEmail_def query_fails_def after_query_no_faults)

lemma getUserRoles_ok: "faults db = [] \<Longrightarrow> \<exists>rs. getUserRoles db uid = (Inr rs, db)"
  by (simp add: getUserRoles_def query_fails_def after_query_no_faults)

lemma createUser_conflict:
  assumes nf: "faults db = []"
    and u: "users_email_unique db"
    and taken: "rows_for db (cu_email args) \<noteq> []"
  shows "createUser ctx db args = (Inl UniqueViolation, db, [])"
proof -
  have "toLowerCase (cu_email args) \<in> set (map user_email (users db))"
    using taken by (force simp: rows_for_def filter_empty_conv)
  then show ?thesis
    using nf u
    by (simp add: createUser_def create_user_row_def insert_user_def query_fails_def
        after_query_no_faults Let_def)
qed

lemma createUser_fresh:
  assumes nf: "faults db = []"
    and free: "\<not> users_email_unique db \<or> rows_for db (cu_email args) = []"
  shows "\<exists>user db' logged. createUser ctx db args = (Inr user, db', logged) \<and>
           user_id user = uuid ctx \<and> user_email user = toLowerCase (cu_email args) \<and>
           users db' = users db @ [user] \<and> faults db' = [] \<and>
           users_email_unique db' = users_email_unique db"
proof -
  have notin: "\<not> (users_email_unique db \<and> toLowerCase (cu_email args) \<in> set (map user_email (users db)))"
    using free by (auto simp: rows_for_def filter_empty_conv)
  obtain user db1 where row: "create_user_row ctx db args = (Inr user, db1)"
    using nf notin
    by (auto simp: create_user_row_def insert_user_def query_fails_def Let_def)
  note f1 = create_user_row_frame [OF row]
  obtain res2 db2 where det: "create_user_details user db1 args = (res2, db2)"
    by (cases "create_user_details user db1 args") auto
  note f2 = create_user_details_frame [OF det]
  have nf1: "faults db1 = []" using f1 nf by simp
  have res2: "res2 = Inr ()" and nf2: "faults db2 = []" using f2 nf1 by simp_all
  obtain res3 db3 where asg: "assignRole db2 (user_id user) (role_of args) = (res3, db3)"
    by (cases "assignRole db2 (user_id user) (role_of args)") auto
  note f3 = assignRole_frame [OF asg]
  have "\<exists>logged. createUser ctx db args = (Inr user, db3, logged)"
    using row det res2 asg by (cases res3) (simp_all add: createUser_def)
  then show ?thesis
    using f1 f2 f3 nf nf1 nf2 by auto
qed

lemma resume_fresh:
  assumes nf: "faults db = []"
    and free: "\<not> users_email_unique db \<or> rows_for db email = []"
  shows "\<exists>user db' logged rs. create_user_resume ctx t email (Inr None) db =
             (signed_in 201 user rs, db', logged) \<and>
           user_id user = uuid ctx \<and> user_email user = toLowerCase email \<and>
           users db' = users db @ [user] \<and> faults db' = [] \<and>
           users_email_unique db' = users_email_unique db"
proof -
  let ?args = "\<lparr>cu_email = email, cu_password = None, cu_firstName = None,
                  cu_lastName = None, cu_phone = None, cu_role = Some ''managers''\<rparr>"
  have free': "\<not> users_email_unique db \<or> rows_for db (cu_email ?args) = []"
    using free by simp
  from createUser_fresh [OF nf free', of ctx] obtain user db' logged where
    c: "createUser ctx db ?args = (Inr user, db', logged)"
    and p: "user_id user = uuid ctx" "user_email user = toLowerCase email"
       "users db' = users db @ [user]" "faults db' = []"
       "users_email_unique db' = users_email_unique db"
    by auto
  from getUserRoles_ok [OF p(4), of "user_id user"] obtain rs where
    g: "getUserRoles db' (user_id user) = (Inr rs, db')" by blast
  have "create_user_resume ctx t email (Inr None) db = (signed_in 201 user rs, db', logged)"
    using c g by (simp add: create_user_resume_def)
  then show ?thesis using p by blast
qed

lemma resume_conflict:
  assumes nf: "faults db = []" and u: "users_email_unique db" and taken: "rows_for db email \<noteq> []"
  shows "create_user_resume ctx t email (Inr None) db =
           (AuthReply 500 (InternalServerError UniqueViolation), db, [])"
  using createUser_conflict [OF nf u, of "\<lparr>cu_email = email, cu_password = None, cu_firstName = None,
                  cu_lastName = None, cu_phone = None, cu_role = Some ''managers''\<rparr>" ctx] taken
  by (simp add: create_user_resume_def)

lemma resume_existing:
  assumes nf: "faults db = []"
  shows "\<exists>rs db'. create_user_resume ctx t email (Inr (Some user)) db = (signed_in 200 user rs, db', []) \<and>
           map user_email (users db') = map user_email (users db)"
proof -
  let ?db1 = "db\<lparr>users := map (\<lambda>u. if user_id u = user_id user then u\<lparr>user_last_login_at := Some t\<rparr> else u) (users db)\<rparr>"
  have t: "touch_last_login (user_id user) t db = (Inr (), ?db1)"
    using nf by (simp add: touch_last_login_def query_fails_def after_query_no_faults)
  have nf1: "faults ?db1 = []" using nf by simp
  from getUserRoles_ok [OF nf1, of "user_id user"] obtain rs where
    g: "getUserRoles ?db1 (user_id user) = (Inr rs, ?db1)" by blast
  have "create_user_resume ctx t email (Inr (Some user)) db = (signed_in 200 user rs, ?db1, [])"
    using t g by (simp add: create_user_resume_def)
  moreover have "map user_email (users ?db1) = map user_email (users db)"
    by (simp add: comp_def if_distrib cong: if_cong)
  ultimately show ?thesis by blast
qed

lemma rows_for_by_emails: "length (rows_for db email) = length (filter (\<lambda>e. e = toLowerCase email) (map user_email (users db)))"
  by (simp add: rows_for_def filter_map comp_def)

lemma reply_id_signed_in: "reply_id (signed_in status user rs) = Some (user_id user)"
  by (simp add: reply_id_def signed_in_def)

lemma find_snoc_first_match:
  "filter P xs = [] \<Longrightarrow> P x \<Longrightarrow> find P (xs @ [x]) = Some x"
  by (induction xs) (auto split: if_splits)

lemma find_no_match: "filter P xs = [] \<Longrightarrow> find P xs = None"
  by (induction xs) (auto split: if_splits)

lemma first_request_creates:
  assumes nf: "faults db = []" and new: "rows_for db email = []"
  shows "\<exists>ua dbA logA rsA.
           findUserByEmail db email = (Inr None, db) \<and>
           create_user_resume ctxA t email (Inr None) db = (signed_in 201 ua rsA, dbA, logA) \<and>
           user_id ua = uuid ctxA \<and> user_email ua = toLowerCase email \<and>
           users dbA = users db @ [ua] \<and> faults dbA = [] \<and>
           users_email_unique dbA = users_email_unique db \<and>
           length (rows_for dbA email) = 1"
proof -
  let ?P = "\<lambda>u. user_email u = toLowerCase email"
  have none: "filter ?P (users db) = []" using new by (simp add: rows_for_def)
  have lookA: "findUserByEmail db email = (Inr None, db)"
    using findUserByEmail_ok [OF nf] find_no_match [OF none] by simp
  from resume_fresh [OF nf, of email ctxA t] new obtain ua dbA logA rsA where
    a: "create_user_resume ctxA t email (Inr None) db = (signed_in 201 ua rsA, dbA, logA)"
    and ua: "user_id ua = uuid ctxA" "user_email ua = toLowerCase email"
    and dbA: "users dbA = users db @ [ua]" "faults dbA = []"
       "users_email_unique dbA = users_email_unique db"
    by auto
  have "length (rows_for dbA email) = 1"
    using none ua by (simp add: rows_for_def dbA)
  then show ?thesis using lookA a ua dbA by blast
qed

lemma sequence_outcome:
  assumes nf: "faults db = []" and new: "rows_for db email = []"
  shows "case two_requests_in_sequence ctxA ctxB t db email of
       (replyA, replyB, db') \<Rightarrow>
          reply_id replyA = Some (uuid ctxA) \<and> reply_id replyB = Some (uuid ctxA) \<and>
          length (rows_for db' email) = 1"
proof -
  let ?P = "\<lambda>u. user_email u = toLowerCase email"
  have none: "filter ?P (users db) = []" using new by (simp add: rows_for_def)
  from first_request_creates [OF nf new, of ctxA t] obtain ua dbA logA rsA where
    lookA: "findUserByEmail db email = (Inr None, db)"
    and a: "create_user_resume ctxA t email (Inr None) db = (signed_in 201 ua rsA, dbA, logA)"
    and ua: "user_id ua = uuid ctxA" "user_email ua = toLowerCase email"
    and dbA: "users dbA = users db @ [ua]" "faults dbA = []"
    and oneA: "length (rows_for dbA email) = 1"
    by blast
  have lookB: "findUserByEmail dbA email = (Inr (Some ua), dbA)"
    using findUserByEmail_ok [OF dbA(2)] find_snoc_first_match [of ?P "users db" ua] none ua
    by (simp add: dbA)
  from resume_existing [OF dbA(2), of ctxB t email ua] obtain rsB dbB where
    b: "create_user_resume ctxB t email (Inr (Some ua)) dbA = (signed_in 200 ua rsB, dbB, [])"
    and same: "map user_email (users dbB) = map user_email (users dbA)"
    by blast
  have "length (rows_for dbB email) = 1"
    using oneA same by (simp add: rows_for_by_emails)
  then show ?thesis
    using lookA a lookB b ua
    by (simp add: two_requests_in_sequence_def create_user_handler_def reply_id_signed_in)
qed

lemma interleaved_outcome:
  assumes nf: "faults db = []" and new: "rows_for db email = []"
  shows "case two_requests_interleaved ctxA ctxB t db email of
       (replyA, replyB, db') \<Rightarrow>
          reply_id replyA = Some (uuid ctxA) \<and>
          (if users_email_unique db
           then replyB = AuthReply 500 (InternalServerError UniqueViolation) \<and>
                length (rows_for db' email) = 1
           else reply_id replyB = Some (uuid ctxB) \<and> length (rows_for db' email) = 2)"
proof -
  let ?P = "\<lambda>u. user_email u = toLowerCase email"
  have none: "filter ?P (users db) = []" using new by (simp add: rows_for_def)
  from first_request_creates [OF nf new, of ctxA t] obtain ua dbA logA rsA where
    lookA: "findUserByEmail db email = (Inr None, db)"
    and a: "create_user_resume ctxA t email (Inr None) db = (signed_in 201 ua rsA, dbA, logA)"
    and ua: "user_id ua = uuid ctxA" "user_email ua = toLowerCase email"
    and dbA: "users dbA = users db @ [ua]" "faults dbA = []"
       "users_email_unique dbA = users_email_unique db"
    and oneA: "length (rows_for dbA email) = 1"
    by blast
  have takenA: "rows_for dbA email \<noteq> []" using oneA by auto
  show ?thesis
  proof (cases "users_email_unique db")
    case True
    then have uA: "users_email_unique dbA" using dbA by simp
    have b: "create_user_resume ctxB t email (Inr None) dbA =
        (AuthReply 500 (InternalServerError UniqueViolation), dbA, [])"
      using resume_conflict [OF dbA(2) uA takenA] .
    show ?thesis
      using True lookA a b ua oneA
      by (simp add: two_requests_interleaved_def reply_id_signed_in)
  next
    case False
    then have free: "\<not> users_email_unique dbA \<or> rows_for dbA email = []" using dbA by simp
    from resume_fresh [OF dbA(2) free, of ctxB t] obtain ub dbB logB rsB where
      b: "create_user_resume ctxB t email (Inr None) dbA = (signed_in 201 ub rsB, dbB, logB)"
      and ub: "user_id ub = uuid ctxB" "user_email ub = toLowerCase email"
      and dbB: "users dbB = users dbA @ [ub]"
      by auto
    have "length (rows_for dbB email) = 2"
      using none ua ub by (simp add: rows_for_def dbB dbA)
    then show ?thesis
      using False lookA a b ua ub
      by (simp add: two_requests_interleaved_def reply_id_signed_in)
  qed
qed

text \<open>
  Claim C7, as amended. Two POST /create-user requests for the same new email, the second
  starting after the first has replied, leave exactly one user row and both callers receive
  its id. There is no upsert: when both lookups are answered before either request
  continues, the second request's plain INSERT violates the unique constraint and that
  caller gets an error, or, without the constraint, a second row with another id is stored.
\<close>

theorem create_user_idempotent_in_sequence:
  assumes nf: "faults db = []" and new: "rows_for db email = []"
  shows
   "(case two_requests_in_sequence ctxA ctxB t db email of
       (replyA, replyB, db') \<Rightarrow>
          reply_id replyA = Some (uuid ctxA) \<and> reply_id replyB = Some (uuid ctxA) \<and>
          length (rows_for db' email) = 1) \<and>
    (case two_requests_interleaved ctxA ctxB t db email of
       (replyA, replyB, db') \<Rightarrow>
          reply_id replyA = Some (uuid ctxA) \<and>
          (if users_email_unique db
           then replyB = AuthReply 500 (InternalServerError UniqueViolation) \<and>
                length (rows_for db' email) = 1
           else reply_id replyB = Some (uuid ctxB) \<and> length (rows_for db' email) = 2))"
  using sequence_outcome [OF nf new] interleaved_outcome [OF nf new] by (rule conjI)

lemma demo_new_email: "rows_for demo_db email = []"
  by (simp add: rows_for_def demo_db_def)

theorem create_user_idempotent_in_sequence_witness:
  "(case two_requests_in_sequence ctx_A ctx_B 5000 demo_db ''new@example.com'' of
       (replyA, replyB, db') \<Rightarrow>
          reply_id replyA = Some (uuid ctx_A) \<and> reply_id replyB = Some (uuid ctx_A) \<and>
          length (rows_for db' ''new@example.com'') = 1) \<and>
    (case two_requests_interleaved ctx_A ctx_B 5000 demo_db ''new@example.com'' of
       (replyA, replyB, db') \<Rightarrow>
          reply_id replyA = Some (uuid ctx_A) \<and>
          (if users_email_unique demo_db
           then replyB = AuthReply 500 (InternalServerError UniqueViolation) \<and>
                length (rows_for db' ''new@example.com'') = 1
           else reply_id replyB = Some (uuid ctx_B) \<and> length (rows_for db' ''new@example.com'') = 2))"
  by (rule create_user_idempotent_in_sequence [OF demo_no_faults demo_new_email])

text \<open>
  Both lookups are answered before either request continues. With the unique constraint
  the second caller is answered 500; without it both callers are signed in, with different
  ids, and two rows are stored for the email.
\<close>

theorem concurrent_create_user_conflicts:
  "fst (snd (two_requests_interleaved ctx_A ctx_B 5000 demo_db ''new@example.com'')) =
     AuthReply 500 (InternalServerError UniqueViolation) \<and>
   reply_id (fst (two_requests_interleaved ctx_A ctx_B 5000 duplicates_db ''new@example.com'')) =
     Some ''id-A'' \<and>
   reply_id (fst (snd (two_requests_interleaved ctx_A ctx_B 5000 duplicates_db
                         ''new@example.com''))) = Some ''id-B'' \<and>
   length (rows_for (snd (snd (two_requests_interleaved ctx_A ctx_B 5000 duplicates_db
                                 ''new@example.com''))) ''new@example.com'') = 2"
proof -
  have u: "users_email_unique demo_db" by (simp add: demo_db_def)
  have first: "fst (snd (two_requests_interleaved ctx_A ctx_B 5000 demo_db ''new@example.com'')) =
     AuthReply 500 (InternalServerError UniqueViolation)"
    using interleaved_outcome [OF demo_no_faults demo_new_email,
        where ctxA = ctx_A and ctxB = ctx_B and t = 5000 and email = "''new@example.com''"] u
    by (simp add: split_beta)
  have nf: "faults duplicates_db = []" by (simp add: duplicates_db_def demo_db_def)
  have new: "rows_for duplicates_db ''new@example.com'' = []"
    by (simp add: rows_for_def duplicates_db_def demo_db_def)
  have nu: "\<not> users_email_unique duplicates_db" by (simp add: duplicates_db_def)
  show ?thesis
    using first interleaved_outcome [OF nf new, where ctxA = ctx_A and ctxB = ctx_B and t = 5000] nu
    by (simp add: split_beta ctx_A_def ctx_B_def)
qed

end
